theory Spec2Isabelle
  imports Main
begin

section \<open>The application state\<close>

text \<open>
  The class \<open>AvevaAttributeConfig\<close> of \<open>sw.js\<close> keeps its state in fields of the single
  application object and in the page.  The model passes that state explicitly.  A
  JavaScript string is a \<open>string\<close>; each \<open>char\<close> stands for one code unit below 256.
  A value that may be \<open>undefined\<close> is an \<open>option\<close>, with \<open>None\<close> for \<open>undefined\<close>.
\<close>

text \<open>What \<open>updateWizardStep\<close> writes to the page: the active step indicator, the
  disabled flag of the previous button and the label of the next button.  The elements
  the methods write to (the wizard buttons, the toast, the grid of saved
  configurations) are taken to be on the page.\<close>

record wizard_view =
  active_step :: int
  prev_disabled :: bool
  next_label :: string

text \<open>An entry of \<open>savedConfigs\<close>, as \<open>saveTemplate\<close> builds it.  The field
  \<open>attributes\<close> of an entry is the number of attributes, not the attributes.\<close>

record saved_config =
  cfg_id :: string
  cfg_name :: string
  cfg_category :: string
  cfg_description :: string
  cfg_attributes :: nat
  cfg_lastModified :: string
  cfg_size :: string

record app =
  currentWizardStep :: int
  savedConfigs :: "saved_config list"
  wizard :: wizard_view
  configsGrid :: "saved_config list"
  toasts :: "(string \<times> string) list"
  console :: "string list"

text \<open>The constructor: \<open>currentWizardStep = 1\<close>, \<open>savedConfigs = []\<close>.\<close>

definition constructor :: app where
  "constructor =
     \<lparr>currentWizardStep = 1, savedConfigs = [],
      wizard = \<lparr>active_step = 1, prev_disabled = True, next_label = ''Next''\<rparr>,
      configsGrid = [], toasts = [], console = []\<rparr>"

text \<open>\<open>showToast(message, type = 'info')\<close>: the model records the call.\<close>

definition showToast :: "string \<Rightarrow> string \<Rightarrow> app \<Rightarrow> app" where
  "showToast message type st = st\<lparr>toasts := toasts st @ [(message, type)]\<rparr>"

section \<open>The template wizard\<close>

definition updateWizardStep :: "app \<Rightarrow> app" where
  "updateWizardStep st =
     st\<lparr>wizard :=
          \<lparr>active_step = currentWizardStep st,
           prev_disabled = (currentWizardStep st = 1),
           next_label = (if currentWizardStep st = 4 then ''Finish'' else ''Next'')\<rparr>\<rparr>"

definition nextWizardStep :: "app \<Rightarrow> app" where
  "nextWizardStep st =
     (if currentWizardStep st < 4
      then updateWizardStep (st\<lparr>currentWizardStep := currentWizardStep st + 1\<rparr>)
      else st)"

definition previousWizardStep :: "app \<Rightarrow> app" where
  "previousWizardStep st =
     (if currentWizardStep st > 1
      then updateWizardStep (st\<lparr>currentWizardStep := currentWizardStep st - 1\<rparr>)
      else st)"

text \<open>The two buttons of the wizard, and a run of clicks from a state.\<close>

datatype wizard_click = NextStep | PrevStep

fun click :: "wizard_click \<Rightarrow> app \<Rightarrow> app" where
  "click NextStep st = nextWizardStep st"
| "click PrevStep st = previousWizardStep st"

fun clicks :: "wizard_click list \<Rightarrow> app \<Rightarrow> app" where
  "clicks [] st = st"
| "clicks (c # cs) st = clicks cs (click c st)"

section \<open>The validation score\<close>

text \<open>\<open>loadValidationData\<close> holds four fixed lists of results, counts the warnings and
  the errors of their concatenation in one \<open>forEach\<close>, and computes the score.\<close>

datatype status = success | warning | error

record validation_result =
  item :: string
  status :: status

definition namingResults :: "validation_result list" where
  "namingResults =
     [\<lparr>item = ''Template names follow PascalCase convention'', status = success\<rparr>,
      \<lparr>item = ''Attribute names use camelCase pattern'', status = success\<rparr>,
      \<lparr>item = ''No reserved words used in naming'', status = warning\<rparr>,
      \<lparr>item = ''Consistent prefix/suffix usage'', status = success\<rparr>]"

definition bestPracticesResults :: "validation_result list" where
  "bestPracticesResults =
     [\<lparr>item = ''Quality attributes included'', status = warning\<rparr>,
      \<lparr>item = ''Proper alarm thresholds defined'', status = success\<rparr>,
      \<lparr>item = ''Engineering units specified'', status = success\<rparr>,
      \<lparr>item = ''Historical data configuration complete'', status = success\<rparr>]"

definition securityResults :: "validation_result list" where
  "securityResults =
     [\<lparr>item = ''Security classifications defined'', status = success\<rparr>,
      \<lparr>item = ''Access levels properly assigned'', status = success\<rparr>,
      \<lparr>item = ''No exposed sensitive attributes'', status = success\<rparr>,
      \<lparr>item = ''Audit trail configuration'', status = warning\<rparr>]"

definition performanceResults :: "validation_result list" where
  "performanceResults =
     [\<lparr>item = ''Data types optimized for performance'', status = success\<rparr>,
      \<lparr>item = ''Update frequencies appropriately set'', status = success\<rparr>,
      \<lparr>item = ''Database indexing considerations'', status = warning\<rparr>,
      \<lparr>item = ''Memory usage within limits'', status = success\<rparr>]"

text \<open>The body of the \<open>forEach\<close>: the pair is \<open>(critical, warnings)\<close>.\<close>

definition count_result :: "int \<times> int \<Rightarrow> validation_result \<Rightarrow> int \<times> int" where
  "count_result cw r =
     (let (critical, warnings) = cw;
          warnings' = (if status r = warning then warnings + 1 else warnings);
          critical' = (if status r = error then critical + 1 else critical)
      in (critical', warnings'))"

definition count_results :: "validation_result list \<Rightarrow> int \<times> int" where
  "count_results rs = foldl count_result (0, 0) rs"

text \<open>\<open>Math.max(0, 100 - (critical * 20) - (warnings * 5))\<close>.\<close>

definition score_of :: "int \<times> int \<Rightarrow> int" where
  "score_of cw = (let (critical, warnings) = cw in max 0 (100 - (critical * 20) - (warnings * 5)))"

definition validationScore :: "validation_result list \<Rightarrow> int" where
  "validationScore rs = score_of (count_results rs)"

definition loadValidationData_score :: int where
  "loadValidationData_score =
     validationScore (namingResults @ bestPracticesResults @ securityResults @ performanceResults)"

text \<open>The counts the claim speaks of: the number of findings of each status.\<close>

definition errorCount :: "validation_result list \<Rightarrow> int" where
  "errorCount rs = int (length (filter (\<lambda>r. status r = error) rs))"

definition warningCount :: "validation_result list \<Rightarrow> int" where
  "warningCount rs = int (length (filter (\<lambda>r. status r = warning) rs))"

section \<open>Strings and numbers of JavaScript\<close>

text \<open>\<open>String.prototype.toLowerCase\<close> on code units below 256: the letters A to Z and
  the upper-case letters of Latin-1 (0xC0 to 0xDE without the multiplication sign 0xD7)
  move to their lower-case partners, 32 code units higher; every other code unit stays.\<close>

definition upper_case :: string where
  "upper_case = ''ABCDEFGHIJKLMNOPQRSTUVWXYZ'' @
     [CHR 0xC0, CHR 0xC1, CHR 0xC2, CHR 0xC3, CHR 0xC4, CHR 0xC5, CHR 0xC6, CHR
      0xC7, CHR 0xC8, CHR 0xC9, CHR 0xCA, CHR 0xCB, CHR 0xCC, CHR 0xCD, CHR 0xCE,
      CHR 0xCF, CHR 0xD0, CHR 0xD1, CHR 0xD2, CHR 0xD3, CHR 0xD4, CHR 0xD5, CHR
      0xD6, CHR 0xD8, CHR 0xD9, CHR 0xDA, CHR 0xDB, CHR 0xDC, CHR 0xDD, CHR 0xDE]"

definition lower_case :: string where
  "lower_case = ''abcdefghijklmnopqrstuvwxyz'' @
     [CHR 0xE0, CHR 0xE1, CHR 0xE2, CHR 0xE3, CHR 0xE4, CHR 0xE5, CHR 0xE6, CHR
      0xE7, CHR 0xE8, CHR 0xE9, CHR 0xEA, CHR 0xEB, CHR 0xEC, CHR 0xED, CHR 0xEE,
      CHR 0xEF, CHR 0xF0, CHR 0xF1, CHR 0xF2, CHR 0xF3, CHR 0xF4, CHR 0xF5, CHR
      0xF6, CHR 0xF8, CHR 0xF9, CHR 0xFA, CHR 0xFB, CHR 0xFC, CHR 0xFD, CHR 0xFE]"

definition toLowerCase_char :: "char \<Rightarrow> char" where
  "toLowerCase_char c = (case map_of (zip upper_case lower_case) c of Some l \<Rightarrow> l | None \<Rightarrow> c)"

definition toLowerCase :: "string \<Rightarrow> string" where
  "toLowerCase s = map toLowerCase_char s"

text \<open>\<open>String.prototype.includes\<close>: the search string occurs at some position.\<close>

fun startsWith :: "string \<Rightarrow> string \<Rightarrow> bool" where
  "startsWith s [] = True"
| "startsWith [] (c # t) = False"
| "startsWith (a # s) (c # t) = (a = c \<and> startsWith s t)"

fun js_includes :: "string \<Rightarrow> string \<Rightarrow> bool" where
  "js_includes [] t = (t = [])"
| "js_includes (a # s) t = (startsWith (a # s) t \<or> js_includes s t)"

text \<open>\<open>v || d\<close> for a \<open>v\<close> that is a string or \<open>undefined\<close>: the empty string and
  \<open>undefined\<close> are falsy.\<close>

definition or_else :: "string option \<Rightarrow> string \<Rightarrow> string" where
  "or_else v d = (case v of None \<Rightarrow> d | Some s \<Rightarrow> if s \<noteq> [] then s else d)"

text \<open>A string or \<open>undefined\<close> inside a template literal.\<close>

definition interpolate :: "string option \<Rightarrow> string" where
  "interpolate v = (case v of None \<Rightarrow> ''undefined'' | Some s \<Rightarrow> s)"

text \<open>The decimal digits of an integer, as a template literal prints it.\<close>

definition digit_char :: "nat \<Rightarrow> char" where
  "digit_char d = ''0123456789'' ! d"

fun show_nat :: "nat \<Rightarrow> string" where
  "show_nat n = (if n < 10 then [digit_char n] else show_nat (n div 10) @ [digit_char (n mod 10)])"

declare show_nat.simps [simp del]

definition show_int :: "int \<Rightarrow> string" where
  "show_int i = (if i < 0 then CHR ''-'' # show_nat (nat (- i)) else show_nat (nat i))"

text \<open>\<open>(len / 1024).toFixed(1)\<close> for a string length \<open>len\<close>.  The quotient is exact in
  binary floating point, and \<open>toFixed\<close> takes the integer \<open>n\<close> with \<open>n / 10\<close> nearest to
  it, the larger one of two: \<open>n = (10 * len + 512) div 1024\<close>.\<close>

definition toFixed1_kb :: "nat \<Rightarrow> string" where
  "toFixed1_kb len =
     (let n = (10 * len + 512) div 1024 in show_nat (n div 10) @ ''.'' @ show_nat (n mod 10))"

section \<open>JSON.stringify\<close>

text \<open>The values \<open>JSON.stringify\<close> meets in this application: strings, \<open>undefined\<close>,
  arrays and plain objects (an object is the list of its properties in creation
  order); \<open>null\<close> and the booleans complete the literals of JSON.  The application
  serialises no number.\<close>

datatype js = JUndefined | JNull | JBool bool | JString string | JArray "js list"
  | JObject "(string \<times> js) list"

text \<open>\<open>QuoteJSONString\<close> of ECMAScript: the seven short escapes, \<open>\uXXXX\<close> with
  lower-case hexadecimal digits for the other code units below 0x20, every other code
  unit as it is.\<close>

definition hex_char :: "nat \<Rightarrow> char" where
  "hex_char d = ''0123456789abcdef'' ! d"

definition UnicodeEscape :: "char \<Rightarrow> string" where
  "UnicodeEscape c =
     [CHR 0x5C, CHR ''u'', CHR ''0'', CHR ''0'',
      hex_char ((of_char c :: nat) div 16), hex_char ((of_char c :: nat) mod 16)]"

definition quote_char :: "char \<Rightarrow> string" where
  "quote_char c =
     (if c = CHR 0x08 then [CHR 0x5C, CHR ''b'']
      else if c = CHR 0x09 then [CHR 0x5C, CHR ''t'']
      else if c = CHR 0x0A then [CHR 0x5C, CHR ''n'']
      else if c = CHR 0x0C then [CHR 0x5C, CHR ''f'']
      else if c = CHR 0x0D then [CHR 0x5C, CHR ''r'']
      else if c = CHR 0x22 then [CHR 0x5C, CHR 0x22]
      else if c = CHR 0x5C then [CHR 0x5C, CHR 0x5C]
      else if (of_char c :: nat) < 32 then UnicodeEscape c
      else [c])"

definition QuoteJSONString :: "string \<Rightarrow> string" where
  "QuoteJSONString s = [CHR 0x22] @ concat (map quote_char s) @ [CHR 0x22]"

text \<open>The common tail of \<open>SerializeJSONObject\<close> and \<open>SerializeJSONArray\<close>: \<open>partial\<close>
  joined between the brackets, on one line when the gap is empty, one member per line
  at the new indentation otherwise.\<close>

fun join :: "string \<Rightarrow> string list \<Rightarrow> string" where
  "join sep [] = []"
| "join sep [x] = x"
| "join sep (x # y # ys) = x @ sep @ join sep (y # ys)"

definition bracket :: "string \<Rightarrow> string \<Rightarrow> string \<Rightarrow> string \<Rightarrow> string list \<Rightarrow> string" where
  "bracket opening closing gap stepback partial =
     (if partial = [] then opening @ closing
      else if gap = [] then opening @ join '','' partial @ closing
      else opening @ [CHR 0x0A] @ (stepback @ gap)
           @ join ('','' @ [CHR 0x0A] @ (stepback @ gap)) partial
           @ [CHR 0x0A] @ stepback @ closing)"

text \<open>\<open>SerializeJSONProperty\<close> gives \<open>undefined\<close> (\<open>None\<close>) for an undefined value;
  \<open>SerializeJSONObject\<close> leaves such a property out and \<open>SerializeJSONArray\<close> writes
  \<open>null\<close> for such an element.  The argument \<open>indent\<close> is the indentation of the
  enclosing level (\<open>stepback\<close>).\<close>

fun SerializeJSONProperty :: "string \<Rightarrow> string \<Rightarrow> js \<Rightarrow> string option"
  and object_partial :: "string \<Rightarrow> string \<Rightarrow> (string \<times> js) list \<Rightarrow> string list"
  and array_partial :: "string \<Rightarrow> string \<Rightarrow> js list \<Rightarrow> string list"
where
  "SerializeJSONProperty gap indent JUndefined = None"
| "SerializeJSONProperty gap indent JNull = Some ''null''"
| "SerializeJSONProperty gap indent (JBool b) = Some (if b then ''true'' else ''false'')"
| "SerializeJSONProperty gap indent (JString s) = Some (QuoteJSONString s)"
| "SerializeJSONProperty gap indent (JArray xs) =
     Some (bracket ''['' '']'' gap indent (array_partial gap (indent @ gap) xs))"
| "SerializeJSONProperty gap indent (JObject ps) =
     Some (bracket ''{'' ''}'' gap indent (object_partial gap (indent @ gap) ps))"
| "object_partial gap indent [] = []"
| "object_partial gap indent ((k, v) # ps) =
     (case SerializeJSONProperty gap indent v of
        None \<Rightarrow> object_partial gap indent ps
      | Some strP \<Rightarrow>
          (QuoteJSONString k @ '':'' @ (if gap \<noteq> [] then '' '' else []) @ strP)
          # object_partial gap indent ps)"
| "array_partial gap indent [] = []"
| "array_partial gap indent (x # xs) =
     (case SerializeJSONProperty gap indent x of
        None \<Rightarrow> ''null'' # array_partial gap indent xs
      | Some strP \<Rightarrow> strP # array_partial gap indent xs)"

text \<open>\<open>JSON.stringify(value, null, space)\<close> with \<open>space\<close> absent (gap \<open>''\<close>) or a number
  of spaces.\<close>

definition JSON_stringify :: "js \<Rightarrow> nat \<Rightarrow> string option" where
  "JSON_stringify v space = SerializeJSONProperty (replicate (min 10 space) CHR '' '') [] v"

section \<open>The form collector\<close>

text \<open>The page as \<open>collectTemplateData\<close> and \<open>downloadExport\<close> read it.  A field is
  \<open>None\<close> when the element is absent (\<open>?.value\<close> is \<open>undefined\<close>).\<close>

record attribute_row =
  row_name :: "string option"
  row_type :: "string option"
  row_description :: "string option"

record form =
  templateName :: "string option"
  templateCategory :: "string option"
  templateDescription :: "string option"
  attribute_rows :: "attribute_row list"
  exportFormat :: "string option"

text \<open>An attribute \<open>{name, type, description}\<close>, and the collected record
  \<open>{name, category, description, attributes}\<close>.\<close>

record attribute =
  attr_name :: string
  attr_type :: string
  attr_description :: "string option"

record template_data =
  name :: string
  category :: string
  description :: string
  attributes :: "attribute list"

text \<open>The body of the \<open>forEach\<close> over the rows: \<open>if (name && type) attributes.push(...)\<close>.
  A value is truthy when it is a string (not \<open>undefined\<close>) and not empty.\<close>

definition collect_row :: "attribute list \<Rightarrow> attribute_row \<Rightarrow> attribute list" where
  "collect_row attrs row =
     (case (row_name row, row_type row) of
        (Some n, Some t) \<Rightarrow>
          if n \<noteq> [] \<and> t \<noteq> []
          then attrs @ [\<lparr>attr_name = n, attr_type = t, attr_description = row_description row\<rparr>]
          else attrs
      | _ \<Rightarrow> attrs)"

definition collectTemplateData :: "form \<Rightarrow> template_data" where
  "collectTemplateData page =
     \<lparr>name = or_else (templateName page) [],
      category = or_else (templateCategory page) [],
      description = or_else (templateDescription page) [],
      attributes = foldl collect_row [] (attribute_rows page)\<rparr>"

section \<open>The export\<close>

text \<open>The JavaScript values of an attribute and of the collected record.\<close>

definition js_of_optional :: "string option \<Rightarrow> js" where
  "js_of_optional v = (case v of None \<Rightarrow> JUndefined | Some s \<Rightarrow> JString s)"

definition js_of_attribute :: "attribute \<Rightarrow> js" where
  "js_of_attribute a =
     JObject [(''name'', JString (attr_name a)), (''type'', JString (attr_type a)),
              (''description'', js_of_optional (attr_description a))]"

definition js_of_data :: "template_data \<Rightarrow> js" where
  "js_of_data d =
     JObject [(''name'', JString (name d)), (''category'', JString (category d)),
              (''description'', JString (description d)),
              (''attributes'', JArray (map js_of_attribute (attributes d)))]"

text \<open>What \<open>downloadExport\<close> hands to \<open>downloadFile\<close>.\<close>

record download =
  content :: "string option"
  filename :: string
  mime :: string

text \<open>The \<open>csv\<close> case: the header, then one line per attribute in a \<open>forEach\<close>.\<close>

definition csv_row :: "string \<Rightarrow> attribute \<Rightarrow> string" where
  "csv_row acc attr =
     acc @ [CHR 0x22] @ attr_name attr @ [CHR 0x22] @ '','' @ [CHR 0x22] @ attr_type attr
         @ [CHR 0x22] @ '','' @ [CHR 0x22] @ interpolate (attr_description attr)
         @ [CHR 0x22] @ [CHR 0x0A]"

definition csv_content :: "template_data \<Rightarrow> string" where
  "csv_content d = foldl csv_row (''Name,Type,Description'' @ [CHR 0x0A]) (attributes d)"

definition export_file :: "template_data \<Rightarrow> string \<Rightarrow> download" where
  "export_file d format =
     (if format = ''json'' then
        \<lparr>content = JSON_stringify (js_of_data d) 2,
         filename = or_else (Some (name d)) ''template'' @ ''.json'',
         mime = ''application/json''\<rparr>
      else if format = ''csv'' then
        \<lparr>content = Some (csv_content d),
         filename = or_else (Some (name d)) ''template'' @ ''.csv'',
         mime = ''text/csv''\<rparr>
      else
        \<lparr>content = JSON_stringify (js_of_data d) 2,
         filename = or_else (Some (name d)) ''template'' @ ''.xml'',
         mime = ''application/xml''\<rparr>)"

definition downloadExport :: "form \<Rightarrow> app \<Rightarrow> download \<times> app" where
  "downloadExport page st =
     (let d = collectTemplateData page;
          format = or_else (exportFormat page) ''json''
      in (export_file d format, showToast ''Template exported successfully'' ''success'' st))"

section \<open>The saved configurations\<close>

text \<open>\<open>saveTemplate\<close> reads the page, the clock (\<open>Date.now()\<close>, in milliseconds) and the
  ISO text of the time (\<open>new Date().toISOString()\<close>).  It has no \<open>return\<close> with a value:
  the first component of the result is what a caller receives, always \<open>undefined\<close>.\<close>

definition compact_length :: "template_data \<Rightarrow> nat" where
  "compact_length d = (case JSON_stringify (js_of_data d) 0 of None \<Rightarrow> 0 | Some s \<Rightarrow> length s)"

definition newConfig :: "template_data \<Rightarrow> int \<Rightarrow> string \<Rightarrow> saved_config" where
  "newConfig templateData now stamp =
     \<lparr>cfg_id = ''template-'' @ show_int now,
      cfg_name = name templateData,
      cfg_category = category templateData,
      cfg_description = description templateData,
      cfg_attributes = length (attributes templateData),
      cfg_lastModified = stamp,
      cfg_size = toFixed1_kb (compact_length templateData) @ '' KB''\<rparr>"

definition saveTemplate :: "form \<Rightarrow> int \<Rightarrow> string \<Rightarrow> app \<Rightarrow> string option \<times> app" where
  "saveTemplate page now stamp st =
     (let templateData = collectTemplateData page in
      if name templateData = [] then
        (None, showToast ''Please enter a template name'' ''error'' st)
      else if length (attributes templateData) = 0 then
        (None, showToast ''Please add at least one attribute'' ''error'' st)
      else
        (None,
         showToast (''Template '' @ [CHR 0x22] @ name templateData @ [CHR 0x22]
                    @ '' saved successfully'') ''info''
           (st\<lparr>savedConfigs := newConfig templateData now stamp # savedConfigs st\<rparr>)))"

text \<open>\<open>loadSavedConfigsData\<close> draws one card per saved configuration;
  \<open>filterSavedConfigs\<close>, the handler of the search box, writes one line to the console.\<close>

definition loadSavedConfigsData :: "app \<Rightarrow> app" where
  "loadSavedConfigsData st = st\<lparr>configsGrid := savedConfigs st\<rparr>"

definition filterSavedConfigs :: "string \<Rightarrow> app \<Rightarrow> app" where
  "filterSavedConfigs searchTerm st =
     st\<lparr>console := console st @ [''Filtering saved configs: '' @ searchTerm]\<rparr>"

section \<open>The quick reference\<close>

text \<open>The table \<open>allData\<close> of \<open>getReferenceDataByFilter\<close>, in its order of declaration.\<close>

record reference_item =
  ref_name :: string
  ref_type :: string
  ref_category :: string
  ref_description :: string

definition allData :: "reference_item list" where
  "allData =
     [\<lparr>ref_name = ''AI_INT'', ref_type = ''analog'', ref_category = ''Analog I/O'',
       ref_description = ''Analog Input Integer - 16-bit signed integer for analog inputs''\<rparr>,
      \<lparr>ref_name = ''AI_REAL'', ref_type = ''analog'', ref_category = ''Analog I/O'',
       ref_description = ''Analog Input Real - 32-bit floating point for precision measurements''\<rparr>,
      \<lparr>ref_name = ''AO_INT'', ref_type = ''analog'', ref_category = ''Analog I/O'',
       ref_description = ''Analog Output Integer - 16-bit signed integer for analog outputs''\<rparr>,
      \<lparr>ref_name = ''AO_REAL'', ref_type = ''analog'', ref_category = ''Analog I/O'',
       ref_description = ''Analog Output Real - 32-bit floating point for precise control''\<rparr>,
      \<lparr>ref_name = ''AI_LREAL'', ref_type = ''analog'', ref_category = ''Analog I/O'',
       ref_description = ''Analog Input Long Real - 64-bit floating point for high precision''\<rparr>,
      \<lparr>ref_name = ''AO_LREAL'', ref_type = ''analog'', ref_category = ''Analog I/O'',
       ref_description = ''Analog Output Long Real - 64-bit floating point for precise control''\<rparr>,
      \<lparr>ref_name = ''DI'', ref_type = ''digital'', ref_category = ''Digital I/O'',
       ref_description = ''Digital Input - Boolean input for on/off states''\<rparr>,
      \<lparr>ref_name = ''DO'', ref_type = ''digital'', ref_category = ''Digital I/O'',
       ref_description = ''Digital Output - Boolean output for control signals''\<rparr>,
      \<lparr>ref_name = ''DI_WORD'', ref_type = ''digital'', ref_category = ''Digital I/O'',
       ref_description = ''Digital Input Word - 16-bit digital input register''\<rparr>,
      \<lparr>ref_name = ''DO_WORD'', ref_type = ''digital'', ref_category = ''Digital I/O'',
       ref_description = ''Digital Output Word - 16-bit digital output register''\<rparr>,
      \<lparr>ref_name = ''DI_DWORD'', ref_type = ''digital'', ref_category = ''Digital I/O'',
       ref_description = ''Digital Input Double Word - 32-bit digital input register''\<rparr>,
      \<lparr>ref_name = ''DO_DWORD'', ref_type = ''digital'', ref_category = ''Digital I/O'',
       ref_description = ''Digital Output Double Word - 32-bit digital output register''\<rparr>,
      \<lparr>ref_name = ''STRING'', ref_type = ''string'', ref_category = ''String'',
       ref_description = ''String - Variable length character string''\<rparr>,
      \<lparr>ref_name = ''STRING_80'', ref_type = ''string'', ref_category = ''String'',
       ref_description = ''String 80 - Fixed 80 character string''\<rparr>,
      \<lparr>ref_name = ''STRING_256'', ref_type = ''string'', ref_category = ''String'',
       ref_description = ''String 256 - Fixed 256 character string''\<rparr>,
      \<lparr>ref_name = ''WSTRING'', ref_type = ''string'', ref_category = ''String'',
       ref_description = ''Wide String - Unicode string support''\<rparr>,
      \<lparr>ref_name = ''STRING_REF'', ref_type = ''string'', ref_category = ''String'',
       ref_description = ''String Reference - Pointer to string data''\<rparr>,
      \<lparr>ref_name = ''TIME'', ref_type = ''system'', ref_category = ''System'',
       ref_description = ''Time - System timestamp''\<rparr>,
      \<lparr>ref_name = ''DATE'', ref_type = ''system'', ref_category = ''System'',
       ref_description = ''Date - System date''\<rparr>,
      \<lparr>ref_name = ''DT'', ref_type = ''system'', ref_category = ''System'',
       ref_description = ''DateTime - Combined date and time''\<rparr>,
      \<lparr>ref_name = ''TOD'', ref_type = ''system'', ref_category = ''System'',
       ref_description = ''Time of Day - Time without date''\<rparr>,
      \<lparr>ref_name = ''REAL'', ref_type = ''system'', ref_category = ''System'',
       ref_description = ''Real - 32-bit floating point number''\<rparr>,
      \<lparr>ref_name = ''LREAL'', ref_type = ''system'', ref_category = ''System'',
       ref_description = ''Long Real - 64-bit floating point number''\<rparr>,
      \<lparr>ref_name = ''INT'', ref_type = ''system'', ref_category = ''System'',
       ref_description = ''Integer - 16-bit signed integer''\<rparr>,
      \<lparr>ref_name = ''DINT'', ref_type = ''system'', ref_category = ''System'',
       ref_description = ''Double Integer - 32-bit signed integer''\<rparr>,
      \<lparr>ref_name = ''UDINT'', ref_type = ''system'', ref_category = ''System'',
       ref_description = ''Unsigned Double Integer - 32-bit unsigned integer''\<rparr>,
      \<lparr>ref_name = ''SINT'', ref_type = ''system'', ref_category = ''System'',
       ref_description = ''Short Integer - 8-bit signed integer''\<rparr>,
      \<lparr>ref_name = ''USINT'', ref_type = ''system'', ref_category = ''System'',
       ref_description = ''Unsigned Short Integer - 8-bit unsigned integer''\<rparr>,
      \<lparr>ref_name = ''BYTE'', ref_type = ''system'', ref_category = ''System'',
       ref_description = ''Byte - 8-bit binary data''\<rparr>,
      \<lparr>ref_name = ''WORD'', ref_type = ''system'', ref_category = ''System'',
       ref_description = ''Word - 16-bit binary data''\<rparr>,
      \<lparr>ref_name = ''DWORD'', ref_type = ''system'', ref_category = ''System'',
       ref_description = ''Double Word - 32-bit binary data''\<rparr>]"

definition getReferenceDataByFilter :: "string \<Rightarrow> reference_item list" where
  "getReferenceDataByFilter filterType =
     (if filterType = ''all'' then allData
      else filter (\<lambda>entry. ref_type entry = filterType) allData)"

text \<open>The predicate of the search filter of \<open>displayFilteredData\<close>.\<close>

definition search_match :: "string \<Rightarrow> reference_item \<Rightarrow> bool" where
  "search_match searchTerm entry =
     (js_includes (toLowerCase (ref_name entry)) (toLowerCase searchTerm)
      \<or> js_includes (toLowerCase (ref_description entry)) (toLowerCase searchTerm)
      \<or> js_includes (toLowerCase (ref_category entry)) (toLowerCase searchTerm))"

text \<open>\<open>displayFilteredData(filterType = 'all', searchTerm = '')\<close> writes the element
  \<open>referenceGrid\<close>: the third argument is the list of cards in the grid, \<open>None\<close> when
  the page has no such element, and the result is the grid afterwards, one card per
  item of \<open>filteredData\<close> (for no item, the "No results found" block).  The search
  filter runs when \<open>searchTerm\<close> is truthy, that is, not empty.\<close>

definition displayFilteredData ::
  "string \<Rightarrow> string \<Rightarrow> reference_item list option \<Rightarrow> reference_item list option" where
  "displayFilteredData filterType searchTerm referenceGrid =
     (case referenceGrid of
        None \<Rightarrow> None
      | Some cards \<Rightarrow>
          (let referenceData = getReferenceDataByFilter filterType;
               filteredData =
                 (if searchTerm \<noteq> [] then filter (search_match searchTerm) referenceData
                  else referenceData)
           in Some filteredData))"

text \<open>The words of the specification: a text contains the search text as a
  case-insensitive substring.\<close>

definition contains_ci :: "string \<Rightarrow> string \<Rightarrow> bool" where
  "contains_ci text searchText =
     (\<exists>before after. toLowerCase text = before @ toLowerCase searchText @ after)"

section \<open>The words of the claims\<close>

text \<open>A row is filled when its name and its type are both present and not empty; a
  filled row gives the attribute of its three values.\<close>

definition row_filled :: "attribute_row \<Rightarrow> bool" where
  "row_filled row = (or_else (row_name row) [] \<noteq> [] \<and> or_else (row_type row) [] \<noteq> [])"

definition row_attribute :: "attribute_row \<Rightarrow> attribute" where
  "row_attribute row =
     \<lparr>attr_name = or_else (row_name row) [], attr_type = or_else (row_type row) [],
      attr_description = row_description row\<rparr>"

text \<open>The line of one attribute, its three fields between double quotes as they are.\<close>

definition csv_line :: "attribute \<Rightarrow> string" where
  "csv_line a = csv_row [] a"

text \<open>A field escaped for CSV: every double quote doubled.\<close>

definition csv_escape :: "string \<Rightarrow> string" where
  "csv_escape s = concat (map (\<lambda>c. if c = CHR 0x22 then [CHR 0x22, CHR 0x22] else [c]) s)"

definition csv_escaped_line :: "attribute \<Rightarrow> string" where
  "csv_escaped_line a =
     [CHR 0x22] @ csv_escape (attr_name a) @ [CHR 0x22] @ '','' @ [CHR 0x22]
     @ csv_escape (attr_type a) @ [CHR 0x22] @ '','' @ [CHR 0x22]
     @ csv_escape (interpolate (attr_description a)) @ [CHR 0x22] @ [CHR 0x0A]"

definition csv_escaped_content :: "template_data \<Rightarrow> string" where
  "csv_escaped_content d =
     ''Name,Type,Description'' @ [CHR 0x0A] @ concat (map csv_escaped_line (attributes d))"

text \<open>The three fields of an attribute as the CSV export prints them.\<close>

definition csv_fields :: "attribute \<Rightarrow> string list" where
  "csv_fields a = [attr_name a, attr_type a, interpolate (attr_description a)]"

text \<open>Sample pages: a template \<open>PumpA\<close> with one attribute and the export format
  \<open>xml\<close>, a page without a name, a page with half-filled rows, and pages for the CSV
  export whose text inputs hold a double quote.\<close>

definition pump_page :: form where
  "pump_page =
     \<lparr>templateName = Some ''PumpA'', templateCategory = Some '''',
      templateDescription = Some '''',
      attribute_rows =
        [\<lparr>row_name = Some ''Flow'', row_type = Some ''AI_REAL'', row_description = Some ''''\<rparr>],
      exportFormat = Some ''xml''\<rparr>"

definition unnamed_page :: form where
  "unnamed_page = pump_page\<lparr>templateName := Some ''''\<rparr>"

definition half_filled_page :: form where
  "half_filled_page =
     pump_page\<lparr>attribute_rows :=
       [\<lparr>row_name = Some ''Flow'', row_type = Some ''AI_REAL'', row_description = Some ''''\<rparr>,
        \<lparr>row_name = Some '''', row_type = Some ''DI'', row_description = Some ''no name''\<rparr>,
        \<lparr>row_name = Some ''Level'', row_type = None, row_description = None\<rparr>]\<rparr>"

definition quote_page :: form where
  "quote_page =
     pump_page\<lparr>attribute_rows :=
       [\<lparr>row_name = Some [CHR ''a'', CHR 0x22, CHR ''b''], row_type = Some ''DI'',
         row_description = Some ''''\<rparr>],
       exportFormat := Some ''csv''\<rparr>"

definition split_name_page :: form where
  "split_name_page =
     pump_page\<lparr>attribute_rows :=
       [\<lparr>row_name = Some ([CHR ''x'', CHR 0x22] @ '','' @ [CHR 0x22] @ ''DI''),
         row_type = Some ''DI'', row_description = Some ''z''\<rparr>],
       exportFormat := Some ''csv''\<rparr>"

definition split_description_page :: form where
  "split_description_page =
     pump_page\<lparr>attribute_rows :=
       [\<lparr>row_name = Some ''x'', row_type = Some ''DI'',
         row_description = Some (''DI'' @ [CHR 0x22] @ '','' @ [CHR 0x22] @ ''z'')\<rparr>],
       exportFormat := Some ''csv''\<rparr>"

section \<open>Reading the JSON export back\<close>

text \<open>
  Modelled from the spec: the repository has no \<open>fromJSON\<close> and no call of
  \<open>JSON.parse\<close>; the specification names \<open>fromJSON\<close> as the inverse of the JSON
  export.  It is modelled as \<open>JSON.parse\<close> followed by reading the four structural
  fields.  The reader accepts the JSON grammar without numbers (the export holds
  none): white space, strings with their escapes, arrays, objects and the three
  literals.  A \<open>\uXXXX\<close> escape of a code unit above 255 is outside the strings of
  this model and is refused.
\<close>

definition is_ws :: "char \<Rightarrow> bool" where
  "is_ws c = (c = CHR '' '' \<or> c = CHR 0x09 \<or> c = CHR 0x0A \<or> c = CHR 0x0D)"

definition skip_ws :: "string \<Rightarrow> string" where
  "skip_ws s = dropWhile is_ws s"

definition hex_value :: "char \<Rightarrow> nat option" where
  "hex_value c =
     map_of (zip ''0123456789abcdefABCDEF''
                 [0, 1, 2, 3, 4, 5, 6, 7, 8, 9, 10, 11, 12, 13, 14, 15, 10, 11, 12, 13, 14, 15]) c"

definition unicode_unit :: "char \<Rightarrow> char \<Rightarrow> char \<Rightarrow> char \<Rightarrow> char option" where
  "unicode_unit a b c d =
     (case (hex_value a, hex_value b, hex_value c, hex_value d) of
        (Some h1, Some h2, Some h3, Some h4) \<Rightarrow>
          (let u = ((h1 * 16 + h2) * 16 + h3) * 16 + h4
           in if u < 256 then Some (char_of u) else None)
      | _ \<Rightarrow> None)"

definition unescape :: "char \<Rightarrow> char option" where
  "unescape e =
     map_of [(CHR 0x22, CHR 0x22), (CHR 0x5C, CHR 0x5C), (CHR ''/'', CHR ''/''),
             (CHR ''b'', CHR 0x08), (CHR ''f'', CHR 0x0C), (CHR ''n'', CHR 0x0A),
             (CHR ''r'', CHR 0x0D), (CHR ''t'', CHR 0x09)] e"

definition add_char :: "char \<Rightarrow> (string \<times> string) option \<Rightarrow> (string \<times> string) option" where
  "add_char c r = (case r of None \<Rightarrow> None | Some (s, rest) \<Rightarrow> Some (c # s, rest))"

text \<open>The characters of a string after its opening quote, up to the closing quote:
  the string read and the text left.\<close>

fun parse_chars :: "string \<Rightarrow> (string \<times> string) option" where
  "parse_chars [] = None"
| "parse_chars (c # s) =
     (if c = CHR 0x22 then Some ([], s)
      else if c = CHR 0x5C then
        (case s of
           [] \<Rightarrow> None
         | e # s1 \<Rightarrow>
             if e = CHR ''u'' then
               (case s1 of
                  a # b # h # l # s2 \<Rightarrow>
                    (case unicode_unit a b h l of
                       None \<Rightarrow> None
                     | Some u \<Rightarrow> add_char u (parse_chars s2))
                | _ \<Rightarrow> None)
             else
               (case unescape e of
                  None \<Rightarrow> None
                | Some u \<Rightarrow> add_char u (parse_chars s1)))
      else if (of_char c :: nat) < 32 then None
      else add_char c (parse_chars s))"

text \<open>\<open>CreateDataProperty\<close> on the object under construction: a name that is there
  already keeps its place and takes the new value.\<close>

fun obj_put :: "(string \<times> js) list \<Rightarrow> string \<times> js \<Rightarrow> (string \<times> js) list" where
  "obj_put [] kv = [kv]"
| "obj_put (p # ps) kv = (if fst p = fst kv then kv # ps else p # obj_put ps kv)"

text \<open>The reader of values, by recursive descent.  The first argument bounds the
  depth of the descent; \<open>JSON_parse\<close> starts it with the length of the text.\<close>

fun parse_value :: "nat \<Rightarrow> string \<Rightarrow> (js \<times> string) option"
  and parse_elements :: "nat \<Rightarrow> string \<Rightarrow> (js list \<times> string) option"
  and parse_members :: "nat \<Rightarrow> string \<Rightarrow> ((string \<times> js) list \<times> string) option"
where
  "parse_value 0 s = None"
| "parse_value (Suc n) s =
     (case skip_ws s of
        [] \<Rightarrow> None
      | c # t \<Rightarrow>
          if c = CHR 0x22 then
            (case parse_chars t of None \<Rightarrow> None | Some (x, r) \<Rightarrow> Some (JString x, r))
          else if c = CHR ''['' then
            (case skip_ws t of
               [] \<Rightarrow> None
             | c' # t' \<Rightarrow>
                 if c' = CHR '']'' then Some (JArray [], t')
                 else (case parse_elements n (c' # t') of
                         None \<Rightarrow> None
                       | Some (xs, r) \<Rightarrow> Some (JArray xs, r)))
          else if c = CHR ''{'' then
            (case skip_ws t of
               [] \<Rightarrow> None
             | c' # t' \<Rightarrow>
                 if c' = CHR ''}'' then Some (JObject [], t')
                 else (case parse_members n (c' # t') of
                         None \<Rightarrow> None
                       | Some (ms, r) \<Rightarrow> Some (JObject (foldl obj_put [] ms), r)))
          else if startsWith (c # t) ''null'' then Some (JNull, drop 4 (c # t))
          else if startsWith (c # t) ''true'' then Some (JBool True, drop 4 (c # t))
          else if startsWith (c # t) ''false'' then Some (JBool False, drop 5 (c # t))
          else None)"
| "parse_elements 0 s = None"
| "parse_elements (Suc n) s =
     (case parse_value n s of
        None \<Rightarrow> None
      | Some (x, r) \<Rightarrow>
          (case skip_ws r of
             [] \<Rightarrow> None
           | c # t \<Rightarrow>
               if c = CHR '','' then
                 (case parse_elements n t of None \<Rightarrow> None | Some (xs, r') \<Rightarrow> Some (x # xs, r'))
               else if c = CHR '']'' then Some ([x], t)
               else None))"
| "parse_members 0 s = None"
| "parse_members (Suc n) s =
     (case skip_ws s of
        [] \<Rightarrow> None
      | q # t \<Rightarrow>
          if q = CHR 0x22 then
            (case parse_chars t of
               None \<Rightarrow> None
             | Some (k, r) \<Rightarrow>
                 (case skip_ws r of
                    [] \<Rightarrow> None
                  | c # t1 \<Rightarrow>
                      if c = CHR '':'' then
                        (case parse_value n t1 of
                           None \<Rightarrow> None
                         | Some (v, r1) \<Rightarrow>
                             (case skip_ws r1 of
                                [] \<Rightarrow> None
                              | c1 # t2 \<Rightarrow>
                                  if c1 = CHR '','' then
                                    (case parse_members n t2 of
                                       None \<Rightarrow> None
                                     | Some (ms, r2) \<Rightarrow> Some ((k, v) # ms, r2))
                                  else if c1 = CHR ''}'' then Some ([(k, v)], t2)
                                  else None))
                      else None))
          else None)"

definition JSON_parse :: "string \<Rightarrow> js option" where
  "JSON_parse s =
     (case parse_value (length s) s of
        None \<Rightarrow> None
      | Some (v, r) \<Rightarrow> if skip_ws r = [] then Some v else None)"

text \<open>Reading a property of a parsed object: \<open>undefined\<close> when it is absent.\<close>

definition obj_get :: "(string \<times> js) list \<Rightarrow> string \<Rightarrow> js" where
  "obj_get ps k = (case map_of ps k of None \<Rightarrow> JUndefined | Some v \<Rightarrow> v)"

definition attribute_of_js :: "js \<Rightarrow> attribute option" where
  "attribute_of_js v =
     (case v of
        JObject ps \<Rightarrow>
          (case (obj_get ps ''name'', obj_get ps ''type'', obj_get ps ''description'') of
             (JString n, JString t, JString d) \<Rightarrow>
               Some \<lparr>attr_name = n, attr_type = t, attr_description = Some d\<rparr>
           | (JString n, JString t, JUndefined) \<Rightarrow>
               Some \<lparr>attr_name = n, attr_type = t, attr_description = None\<rparr>
           | _ \<Rightarrow> None)
      | _ \<Rightarrow> None)"

definition data_of_js :: "js \<Rightarrow> template_data option" where
  "data_of_js v =
     (case v of
        JObject ps \<Rightarrow>
          (case (obj_get ps ''name'', obj_get ps ''category'', obj_get ps ''description'',
                 obj_get ps ''attributes'') of
             (JString n, JString c, JString d, JArray xs) \<Rightarrow>
               (case those (map attribute_of_js xs) of
                  None \<Rightarrow> None
                | Some attrs \<Rightarrow>
                    Some \<lparr>name = n, category = c, description = d, attributes = attrs\<rparr>)
           | _ \<Rightarrow> None)
      | _ \<Rightarrow> None)"

text \<open>\<open>toJSON\<close> is the text of the \<open>json\<close> case of \<open>downloadExport\<close>.\<close>

definition toJSON :: "template_data \<Rightarrow> string option" where
  "toJSON d = content (export_file d ''json'')"

definition fromJSON :: "string \<Rightarrow> template_data option" where
  "fromJSON s = (case JSON_parse s of None \<Rightarrow> None | Some v \<Rightarrow> data_of_js v)"

text \<open>The notions of the proof that the export reads back: texts of white space,
  the first characters of a value, values without \<open>undefined\<close> whose objects name
  each property once, and the values that are read back from their text at every
  indentation.\<close>

definition blank :: "string \<Rightarrow> bool" where
  "blank w = (\<forall>c\<in>set w. is_ws c)"

definition starts_value :: "string \<Rightarrow> bool" where
  "starts_value s = (\<exists>c t. s = c # t \<and> c \<in> set [CHR 0x22, CHR ''['', CHR ''{'', CHR ''n'', CHR ''t'', CHR ''f''])"

fun well_formed :: "js \<Rightarrow> bool"
  and well_formed_list :: "js list \<Rightarrow> bool"
  and well_formed_members :: "(string \<times> js) list \<Rightarrow> bool"
where
  "well_formed JUndefined = False"
| "well_formed JNull = True"
| "well_formed (JBool b) = True"
| "well_formed (JString s) = True"
| "well_formed (JArray xs) = well_formed_list xs"
| "well_formed (JObject ps) = (distinct (map fst ps) \<and> well_formed_members ps)"
| "well_formed_list [] = True"
| "well_formed_list (x # xs) = (well_formed x \<and> well_formed_list xs)"
| "well_formed_members [] = True"
| "well_formed_members ((k, v) # ps) = (well_formed v \<and> well_formed_members ps)"

definition reads_back :: "string \<Rightarrow> js \<Rightarrow> bool" where
  "reads_back gap v =
     (\<forall>indent. blank indent \<longrightarrow>
        (\<exists>strP. SerializeJSONProperty gap indent v = Some strP \<and> starts_value strP
           \<and> (\<forall>n w rest. blank w \<longrightarrow> length strP \<le> n \<longrightarrow>
                  parse_value n (w @ strP @ rest) = Some (v, rest))))"

text \<open>The white space that \<open>bracket\<close> writes after the opening bracket and
  after every comma, and before the closing bracket.\<close>

definition ws_open :: "string \<Rightarrow> string \<Rightarrow> string" where
  "ws_open gap stepback = (if gap = [] then [] else CHR 0x0A # stepback @ gap)"

definition ws_close :: "string \<Rightarrow> string \<Rightarrow> string" where
  "ws_close gap stepback = (if gap = [] then [] else CHR 0x0A # stepback)"

text \<open>The value of an attribute and of a record as the text shows it: an absent
  description is no property.\<close>

definition shown_attribute :: "attribute \<Rightarrow> js" where
  "shown_attribute a =
     JObject ([(''name'', JString (attr_name a)), (''type'', JString (attr_type a))]
              @ (case attr_description a of None \<Rightarrow> [] | Some d \<Rightarrow> [(''description'', JString d)]))"

definition shown_data :: "template_data \<Rightarrow> js" where
  "shown_data d =
     JObject [(''name'', JString (name d)), (''category'', JString (category d)),
              (''description'', JString (description d)),
              (''attributes'', JArray (map shown_attribute (attributes d)))]"

section \<open>Properties of the wizard\<close>

lemma nextWizardStep_range:
  "1 \<le> currentWizardStep st \<and> currentWizardStep st \<le> 4 \<Longrightarrow>
   1 \<le> currentWizardStep (nextWizardStep st) \<and> currentWizardStep (nextWizardStep st) \<le> 4"
  by (simp add: nextWizardStep_def updateWizardStep_def)

lemma previousWizardStep_range:
  "1 \<le> currentWizardStep st \<and> currentWizardStep st \<le> 4 \<Longrightarrow>
   1 \<le> currentWizardStep (previousWizardStep st) \<and>
   currentWizardStep (previousWizardStep st) \<le> 4"
  by (simp add: previousWizardStep_def updateWizardStep_def)

lemma clicks_range:
  "1 \<le> currentWizardStep st \<and> currentWizardStep st \<le> 4 \<Longrightarrow>
   1 \<le> currentWizardStep (clicks cs st) \<and> currentWizardStep (clicks cs st) \<le> 4"
proof (induction cs arbitrary: st)
  case Nil
  then show ?case by simp
next
  case (Cons c cs)
  have "1 \<le> currentWizardStep (click c st) \<and> currentWizardStep (click c st) \<le> 4"
    using Cons.prems nextWizardStep_range previousWizardStep_range by (cases c) simp_all
  then show ?case using Cons.IH by simp
qed

text \<open>
  Claim C10.  The wizard step counter starts at 1 and, after every sequence of
  \<open>nextWizardStep\<close> and \<open>previousWizardStep\<close> from the constructed application, lies
  in the range 1 to 4; \<open>nextWizardStep\<close> at step 4 and \<open>previousWizardStep\<close> at step 1
  change nothing.
\<close>

theorem wizard_step_invariant:
  "currentWizardStep constructor = 1
   \<and> 1 \<le> currentWizardStep (clicks cs constructor)
   \<and> currentWizardStep (clicks cs constructor) \<le> 4
   \<and> nextWizardStep (st\<lparr>currentWizardStep := 4\<rparr>) = st\<lparr>currentWizardStep := 4\<rparr>
   \<and> previousWizardStep (st\<lparr>currentWizardStep := 1\<rparr>) = st\<lparr>currentWizardStep := 1\<rparr>"
proof -
  have start: "currentWizardStep constructor = 1"
    by (simp add: constructor_def)
  then have "1 \<le> currentWizardStep constructor \<and> currentWizardStep constructor \<le> 4"
    by simp
  from clicks_range [OF this] start show ?thesis
    by (simp add: nextWizardStep_def previousWizardStep_def)
qed

section \<open>Properties of the validation score\<close>

lemma foldl_count_result:
  "foldl count_result (c, w) rs = (c + errorCount rs, w + warningCount rs)"
  by (induction rs arbitrary: c w)
     (simp_all add: count_result_def errorCount_def warningCount_def)

lemma count_results_eq: "count_results rs = (errorCount rs, warningCount rs)"
  by (simp add: count_results_def foldl_count_result)

lemma validationScore_eq:
  "validationScore rs = max 0 (100 - 20 * errorCount rs - 5 * warningCount rs)"
  by (simp add: validationScore_def score_of_def count_results_eq)

lemma errorCount_append: "errorCount (rs @ extra) = errorCount rs + errorCount extra"
  by (simp add: errorCount_def)

lemma warningCount_append: "warningCount (rs @ extra) = warningCount rs + warningCount extra"
  by (simp add: warningCount_def)

lemma errorCount_nonneg: "0 \<le> errorCount rs"
  by (simp add: errorCount_def)

lemma warningCount_nonneg: "0 \<le> warningCount rs"
  by (simp add: warningCount_def)

text \<open>
  Claim C6.  For every list of findings, the score is
  \<open>max(0, 100 - 20 * errorCount - 5 * warningCount)\<close>, it lies between 0 and 100, and it
  does not grow when further findings are added.  On the four fixed lists of
  \<open>loadValidationData\<close> it is 80.
\<close>

theorem validation_score_formula_bounds_monotone:
  "validationScore rs = max 0 (100 - 20 * errorCount rs - 5 * warningCount rs)
   \<and> 0 \<le> validationScore rs \<and> validationScore rs \<le> 100
   \<and> validationScore (rs @ extra) \<le> validationScore rs
   \<and> loadValidationData_score = 80"
proof -
  have bounds: "0 \<le> validationScore rs \<and> validationScore rs \<le> 100"
    using errorCount_nonneg [of rs] warningCount_nonneg [of rs]
    by (simp add: validationScore_eq)
  have mono: "validationScore (rs @ extra) \<le> validationScore rs"
    using errorCount_nonneg [of extra] warningCount_nonneg [of extra]
    by (simp add: validationScore_eq errorCount_append warningCount_append)
  have fixed: "loadValidationData_score = 80"
    by (simp add: loadValidationData_score_def validationScore_eq errorCount_def
        warningCount_def namingResults_def bestPracticesResults_def securityResults_def
        performanceResults_def)
  from validationScore_eq [of rs] bounds mono fixed show ?thesis by simp
qed

section \<open>Properties of the decimal digits\<close>

lemma digit_char_cases: "d < 10 \<Longrightarrow> d = 0 \<or> d = 1 \<or> d = 2 \<or> d = 3 \<or> d = 4 \<or> d = 5 \<or> d = 6 \<or> d = 7 \<or> d = 8 \<or> d = (9::nat)"
  by arith

lemma digit_char_inj: "a < 10 \<Longrightarrow> b < 10 \<Longrightarrow> digit_char a = digit_char b \<Longrightarrow> a = b"
  using digit_char_cases [of a] digit_char_cases [of b]
  by (auto simp: digit_char_def)

lemma digit_char_not_minus: "d < 10 \<Longrightarrow> digit_char d \<noteq> CHR ''-''"
  using digit_char_cases [of d] by (auto simp: digit_char_def)

lemma show_nat_small: "n < 10 \<Longrightarrow> show_nat n = [digit_char n]"
  by (simp add: show_nat.simps)

lemma show_nat_big: "\<not> n < 10 \<Longrightarrow> show_nat n = show_nat (n div 10) @ [digit_char (n mod 10)]"
  by (subst show_nat.simps) simp

lemma show_nat_not_Nil: "show_nat n \<noteq> []"
  by (cases "n < 10") (simp_all add: show_nat_small show_nat_big)

lemma show_nat_inj: "show_nat m = show_nat n \<Longrightarrow> m = n"
proof (induction m arbitrary: n rule: show_nat.induct)
  case (1 m)
  show ?case
  proof (cases "m < 10")
    case small_m: True
    show ?thesis
    proof (cases "n < 10")
      case True
      with small_m "1.prems" show ?thesis
        by (simp add: show_nat_small digit_char_inj)
    next
      case False
      with small_m "1.prems" show_nat_not_Nil [of "n div 10"] show ?thesis
        by (auto simp: show_nat_small show_nat_big)
    qed
  next
    case big_m: False
    show ?thesis
    proof (cases "n < 10")
      case True
      with big_m "1.prems" show_nat_not_Nil [of "m div 10"] show ?thesis
        by (auto simp: show_nat_small show_nat_big)
    next
      case False
      with big_m "1.prems" have eq: "show_nat (m div 10) = show_nat (n div 10)"
        and d: "digit_char (m mod 10) = digit_char (n mod 10)"
        by (simp_all add: show_nat_big)
      from "1.IH" [OF big_m eq] have q: "m div 10 = n div 10" .
      from d have r: "m mod 10 = n mod 10"
        by (simp add: digit_char_inj)
      from q r show ?thesis
        by (metis div_mult_mod_eq)
    qed
  qed
qed

lemma show_nat_hd: "hd (show_nat n) \<noteq> CHR ''-''"
proof (induction n rule: show_nat.induct)
  case (1 n)
  show ?case
  proof (cases "n < 10")
    case True
    then show ?thesis by (simp add: show_nat_small digit_char_not_minus)
  next
    case False
    with "1.IH" show ?thesis
      by (simp add: show_nat_big show_nat_not_Nil)
  qed
qed

lemma show_int_inj: "show_int i = show_int j \<Longrightarrow> i = j"
proof (cases "i < 0"; cases "j < 0")
  assume "show_int i = show_int j" "i < 0" "j < 0"
  then show ?thesis using show_nat_inj [of "nat (- i)" "nat (- j)"] by (simp add: show_int_def)
next
  assume "show_int i = show_int j" "i < 0" "\<not> j < 0"
  then have "hd (show_nat (nat j)) = CHR ''-''"
    by (simp add: show_int_def) (metis list.sel(1))
  then show ?thesis using show_nat_hd [of "nat j"] by simp
next
  assume "show_int i = show_int j" "\<not> i < 0" "j < 0"
  then have "hd (show_nat (nat i)) = CHR ''-''"
    by (simp add: show_int_def)
  then show ?thesis using show_nat_hd [of "nat i"] by simp
next
  assume "show_int i = show_int j" "\<not> i < 0" "\<not> j < 0"
  then show ?thesis using show_nat_inj [of "nat i" "nat j"] by (simp add: show_int_def)
qed

section \<open>Properties of the form collector\<close>

lemma collect_row_filled:
  "collect_row attrs row = (if row_filled row then attrs @ [row_attribute row] else attrs)"
  by (simp add: collect_row_def row_filled_def row_attribute_def or_else_def
      split: option.splits)

lemma foldl_collect_row:
  "foldl collect_row attrs rows = attrs @ map row_attribute (filter row_filled rows)"
  by (induction rows arbitrary: attrs) (simp_all add: collect_row_filled)

lemma attributes_collect:
  "attributes (collectTemplateData page) = map row_attribute (filter row_filled (attribute_rows page))"
  by (simp add: collectTemplateData_def foldl_collect_row)

text \<open>A row without a name and a row without a type are left out.\<close>

lemma collect_half_filled_page:
  "attributes (collectTemplateData half_filled_page)
     = [\<lparr>attr_name = ''Flow'', attr_type = ''AI_REAL'', attr_description = Some []\<rparr>]"
  by (simp add: attributes_collect half_filled_page_def pump_page_def row_filled_def
      row_attribute_def or_else_def)

text \<open>
  Claim C9.  \<open>collectTemplateData\<close> returns a record for every page: its name,
  category and description are the values of the page, the empty string when a value
  is absent; its attributes are empty for a page without rows; every row with a
  non-empty name and a non-empty type gives exactly one attribute, in the order of the
  rows, and the other rows give none.
\<close>

theorem collect_never_fails_defaults_and_rows:
  "name (collectTemplateData page) = (case templateName page of None \<Rightarrow> [] | Some v \<Rightarrow> v)
   \<and> category (collectTemplateData page) = (case templateCategory page of None \<Rightarrow> [] | Some v \<Rightarrow> v)
   \<and> description (collectTemplateData page)
       = (case templateDescription page of None \<Rightarrow> [] | Some v \<Rightarrow> v)
   \<and> attributes (collectTemplateData (page\<lparr>attribute_rows := []\<rparr>)) = []
   \<and> attributes (collectTemplateData page)
       = map row_attribute (filter row_filled (attribute_rows page))
   \<and> length (attributes (collectTemplateData page))
       = length (filter row_filled (attribute_rows page))"
proof -
  have fields:
    "name (collectTemplateData page) = (case templateName page of None \<Rightarrow> [] | Some v \<Rightarrow> v)"
    "category (collectTemplateData page) = (case templateCategory page of None \<Rightarrow> [] | Some v \<Rightarrow> v)"
    "description (collectTemplateData page)
       = (case templateDescription page of None \<Rightarrow> [] | Some v \<Rightarrow> v)"
    by (simp_all add: collectTemplateData_def or_else_def split: option.splits)
  have no_rows: "attributes (collectTemplateData (page\<lparr>attribute_rows := []\<rparr>)) = []"
    by (simp add: attributes_collect)
  from fields no_rows attributes_collect [of page] show ?thesis by simp
qed

section \<open>Properties of saving\<close>

text \<open>
  Claim C1.  When the collected record has an empty name or no attribute,
  \<open>saveTemplate\<close> shows a toast of type \<open>error\<close> and changes nothing else: the list
  \<open>savedConfigs\<close> is the one before the call.
\<close>

theorem saveTemplate_rejects_unchanged:
  assumes "name (collectTemplateData page) = [] \<or> attributes (collectTemplateData page) = []"
  shows "savedConfigs (snd (saveTemplate page now stamp st)) = savedConfigs st
         \<and> (\<exists>message. snd (saveTemplate page now stamp st) = showToast message ''error'' st)"
proof (cases "name (collectTemplateData page) = []")
  case True
  then show ?thesis
    by (auto simp: saveTemplate_def showToast_def)
next
  case False
  with assms have "attributes (collectTemplateData page) = []" by simp
  with False show ?thesis
    by (auto simp: saveTemplate_def showToast_def)
qed

theorem saveTemplate_rejects_unchanged_witness:
  "name (collectTemplateData unnamed_page) = []
   \<and> savedConfigs (snd (saveTemplate unnamed_page 1700000000000 ''2023-11-14T22:13:20.000Z'' constructor)) = []
   \<and> toasts (snd (saveTemplate unnamed_page 1700000000000 ''2023-11-14T22:13:20.000Z'' constructor))
       = [(''Please enter a template name'', ''error'')]"
proof -
  have empty: "name (collectTemplateData unnamed_page) = []"
    by (simp add: collectTemplateData_def unnamed_page_def pump_page_def or_else_def)
  then have "name (collectTemplateData unnamed_page) = []
      \<or> attributes (collectTemplateData unnamed_page) = []" by simp
  from saveTemplate_rejects_unchanged [OF this, of 1700000000000 "''2023-11-14T22:13:20.000Z''" constructor]
  have "savedConfigs (snd (saveTemplate unnamed_page 1700000000000 ''2023-11-14T22:13:20.000Z'' constructor)) = []"
    by (simp add: constructor_def)
  moreover have "toasts (snd (saveTemplate unnamed_page 1700000000000 ''2023-11-14T22:13:20.000Z'' constructor))
       = [(''Please enter a template name'', ''error'')]"
    using empty by (simp add: saveTemplate_def showToast_def constructor_def)
  ultimately show ?thesis using empty by simp
qed

lemma pump_data:
  "collectTemplateData pump_page =
     \<lparr>name = ''PumpA'', category = '''', description = '''',
      attributes = [\<lparr>attr_name = ''Flow'', attr_type = ''AI_REAL'', attr_description = Some ''''\<rparr>]\<rparr>"
  by (simp add: collectTemplateData_def pump_page_def or_else_def collect_row_def)

lemma saveTemplate_accepts:
  "name (collectTemplateData page) \<noteq> [] \<Longrightarrow> attributes (collectTemplateData page) \<noteq> [] \<Longrightarrow>
   saveTemplate page now stamp st =
     (None, showToast (''Template '' @ [CHR 0x22] @ name (collectTemplateData page) @ [CHR 0x22]
                    @ '' saved successfully'') ''info''
           (st\<lparr>savedConfigs := newConfig (collectTemplateData page) now stamp # savedConfigs st\<rparr>))"
  by (simp add: saveTemplate_def Let_def)

lemma show_nat_1700: "show_nat 1700000000000 = ''1700000000000''"
  by (simp add: show_nat.simps digit_char_def)

lemma pump_saved_ids:
  "map cfg_id (savedConfigs (snd (saveTemplate pump_page 1700000000000 stamp st)))
     = ''template-1700000000000'' # map cfg_id (savedConfigs st)"
  by (simp add: saveTemplate_accepts pump_data showToast_def newConfig_def show_int_def show_nat_1700)

text \<open>
  Claim C3 as stated fails.  The page \<open>pump_page\<close> has a name and one attribute;
  saved twice at the same clock reading, it gives two entries with the same id, and
  the call returns \<open>undefined\<close>, not the id.
\<close>

theorem saveTemplate_id_counterexample:
  "name (collectTemplateData pump_page) \<noteq> []
   \<and> length (attributes (collectTemplateData pump_page)) = 1
   \<and> fst (saveTemplate pump_page 1700000000000 ''2023-11-14T22:13:20.000Z''
            (snd (saveTemplate pump_page 1700000000000 ''2023-11-14T22:13:20.000Z'' constructor)))
       = None
   \<and> map cfg_id (savedConfigs (snd (saveTemplate pump_page 1700000000000 ''2023-11-14T22:13:20.000Z''
            (snd (saveTemplate pump_page 1700000000000 ''2023-11-14T22:13:20.000Z'' constructor)))))
       = [''template-1700000000000'', ''template-1700000000000'']
   \<and> \<not> distinct (map cfg_id (savedConfigs (snd (saveTemplate pump_page 1700000000000 ''2023-11-14T22:13:20.000Z''
            (snd (saveTemplate pump_page 1700000000000 ''2023-11-14T22:13:20.000Z'' constructor))))))"
proof -
  have returned: "fst (saveTemplate pump_page now stamp st) = None" for now stamp st
    by (simp add: saveTemplate_def Let_def)
  have ids: "map cfg_id (savedConfigs (snd (saveTemplate pump_page 1700000000000 ''2023-11-14T22:13:20.000Z''
            (snd (saveTemplate pump_page 1700000000000 ''2023-11-14T22:13:20.000Z'' constructor)))))
       = [''template-1700000000000'', ''template-1700000000000'']"
    by (simp add: pump_saved_ids constructor_def)
  have sample: "name (collectTemplateData pump_page) \<noteq> []
      \<and> length (attributes (collectTemplateData pump_page)) = 1"
    by (simp add: pump_data)
  from returned ids sample show ?thesis by simp
qed

lemma saveTemplate_saved:
  "name (collectTemplateData page) \<noteq> [] \<Longrightarrow> attributes (collectTemplateData page) \<noteq> [] \<Longrightarrow>
   savedConfigs (snd (saveTemplate page now stamp st))
     = newConfig (collectTemplateData page) now stamp # savedConfigs st"
  by (simp add: saveTemplate_accepts showToast_def)

text \<open>
  Claim C3, amended.  For every record with a non-empty name and at least one
  attribute, \<open>saveTemplate\<close> returns \<open>undefined\<close> and puts one new entry in front of
  \<open>savedConfigs\<close>; the entry has the id \<open>template-\<close> followed by the clock reading
  and the name, the category, the description and the number of attributes of the
  record.  Ids of different clock readings differ, so the ids of the list stay unique
  when they were unique and no saved entry has the id of this clock reading.
\<close>

theorem saveTemplate_prepends_clock_id:
  assumes "name (collectTemplateData page) \<noteq> []"
    and "attributes (collectTemplateData page) \<noteq> []"
  shows "fst (saveTemplate page now stamp st) = None
    \<and> (\<exists>entry. savedConfigs (snd (saveTemplate page now stamp st)) = entry # savedConfigs st
          \<and> cfg_id entry = ''template-'' @ show_int now
          \<and> cfg_name entry = name (collectTemplateData page)
          \<and> cfg_category entry = category (collectTemplateData page)
          \<and> cfg_description entry = description (collectTemplateData page)
          \<and> cfg_attributes entry = length (attributes (collectTemplateData page)))
    \<and> ((''template-'' @ show_int earlier = ''template-'' @ show_int now) = (earlier = now))
    \<and> (distinct (map cfg_id (savedConfigs st))
          \<and> ''template-'' @ show_int now \<notin> set (map cfg_id (savedConfigs st))
        \<longrightarrow> distinct (map cfg_id (savedConfigs (snd (saveTemplate page now stamp st)))))"
proof -
  have returned: "fst (saveTemplate page now stamp st) = None"
    by (simp add: saveTemplate_def Let_def)
  have saved: "savedConfigs (snd (saveTemplate page now stamp st))
     = newConfig (collectTemplateData page) now stamp # savedConfigs st"
    using assms by (rule saveTemplate_saved)
  have ids: "(''template-'' @ show_int earlier = ''template-'' @ show_int now) = (earlier = now)"
    using show_int_inj [of earlier now] by auto
  from returned saved ids show ?thesis
    by (simp add: newConfig_def)
qed

theorem saveTemplate_prepends_clock_id_witness:
  "name (collectTemplateData pump_page) \<noteq> []
   \<and> attributes (collectTemplateData pump_page) \<noteq> []
   \<and> fst (saveTemplate pump_page 1700000000000 ''2023-11-14T22:13:20.000Z'' constructor) = None
   \<and> map cfg_id (savedConfigs
        (snd (saveTemplate pump_page 1700000000000 ''2023-11-14T22:13:20.000Z'' constructor)))
       = [''template-1700000000000'']
   \<and> distinct (map cfg_id (savedConfigs
        (snd (saveTemplate pump_page 1700000000000 ''2023-11-14T22:13:20.000Z'' constructor))))"
proof -
  have n: "name (collectTemplateData pump_page) \<noteq> []"
    and a: "attributes (collectTemplateData pump_page) \<noteq> []"
    by (simp_all add: pump_data)
  have ids: "map cfg_id (savedConfigs
        (snd (saveTemplate pump_page 1700000000000 ''2023-11-14T22:13:20.000Z'' constructor)))
       = [''template-1700000000000'']"
    by (simp add: pump_saved_ids constructor_def)
  from saveTemplate_prepends_clock_id [OF n a, of 1700000000000 "''2023-11-14T22:13:20.000Z''" constructor 0]
  have "fst (saveTemplate pump_page 1700000000000 ''2023-11-14T22:13:20.000Z'' constructor) = None
    \<and> distinct (map cfg_id (savedConfigs
        (snd (saveTemplate pump_page 1700000000000 ''2023-11-14T22:13:20.000Z'' constructor))))"
    by (simp add: constructor_def)
  with n a ids show ?thesis by simp
qed

section \<open>Properties of the export\<close>

lemma foldl_csv_row: "foldl csv_row acc attrs = acc @ concat (map csv_line attrs)"
  by (induction attrs arbitrary: acc) (simp_all add: csv_line_def csv_row_def)

lemma csv_content_lines:
  "csv_content d = ''Name,Type,Description'' @ [CHR 0x0A] @ concat (map csv_line (attributes d))"
  by (simp add: csv_content_def foldl_csv_row)

lemma csv_escape_free: "CHR 0x22 \<notin> set s \<Longrightarrow> csv_escape s = s"
  by (induction s) (auto simp: csv_escape_def)

lemma csv_escaped_line_free:
  "\<forall>f\<in>set (csv_fields a). CHR 0x22 \<notin> set f \<Longrightarrow> csv_escaped_line a = csv_line a"
  by (simp add: csv_escaped_line_def csv_line_def csv_row_def csv_fields_def csv_escape_free)

lemma csv_escaped_lines_free:
  "\<forall>a\<in>set attrs. \<forall>f\<in>set (csv_fields a). CHR 0x22 \<notin> set f \<Longrightarrow>
   map csv_escaped_line attrs = map csv_line attrs"
  by (induction attrs) (simp_all add: csv_escaped_line_free)

text \<open>Where no field holds a double quote, the export is the escaped export.\<close>

lemma csv_content_escaped_when_quote_free:
  assumes "\<forall>a\<in>set (attributes d). \<forall>f\<in>set (csv_fields a). CHR 0x22 \<notin> set f"
  shows "csv_content d = csv_escaped_content d"
proof -
  have "map csv_escaped_line (attributes d) = map csv_line (attributes d)"
    using assms by (rule csv_escaped_lines_free)
  then show ?thesis
    by (simp only: csv_content_lines csv_escaped_content_def)
qed

text \<open>The name, the category and the description of the record do not enter the
  CSV export.\<close>

lemma csv_content_attributes_only:
  "csv_content (d\<lparr>name := n, category := c, description := x\<rparr>) = csv_content d"
  by (simp add: csv_content_def)

lemma quote_page_data:
  "collectTemplateData quote_page =
     \<lparr>name = ''PumpA'', category = '''', description = '''',
      attributes = [\<lparr>attr_name = [CHR ''a'', CHR 0x22, CHR ''b''], attr_type = ''DI'',
                     attr_description = Some []\<rparr>]\<rparr>"
  by (simp add: collectTemplateData_def quote_page_def pump_page_def or_else_def collect_row_def)

lemma split_name_page_data:
  "collectTemplateData split_name_page =
     \<lparr>name = ''PumpA'', category = '''', description = '''',
      attributes = [\<lparr>attr_name = [CHR ''x'', CHR 0x22, CHR '','', CHR 0x22, CHR ''D'', CHR ''I''],
                     attr_type = ''DI'', attr_description = Some ''z''\<rparr>]\<rparr>"
  by (simp add: collectTemplateData_def split_name_page_def pump_page_def or_else_def
      collect_row_def)

lemma split_description_page_data:
  "collectTemplateData split_description_page =
     \<lparr>name = ''PumpA'', category = '''', description = '''',
      attributes = [\<lparr>attr_name = ''x'', attr_type = ''DI'',
                     attr_description =
                       Some [CHR ''D'', CHR ''I'', CHR 0x22, CHR '','', CHR 0x22, CHR ''z'']\<rparr>]\<rparr>"
  by (simp add: collectTemplateData_def split_description_page_def pump_page_def or_else_def
      collect_row_def)

lemma csv_formats:
  "exportFormat quote_page = Some ''csv''"
  "exportFormat split_name_page = Some ''csv''"
  "exportFormat split_description_page = Some ''csv''"
  by (simp_all add: quote_page_def split_name_page_def split_description_page_def)

text \<open>
  Claim C5 fails on the code.  The \<open>csv\<close> case puts every field between double
  quotes and prints a double quote inside a field as it is.  For an attribute named
  \<open>a"b\<close> the export, a file \<open>PumpA.csv\<close> of type \<open>text/csv\<close>, is not the export
  with escaped fields, and two pages with different attributes have the same export.
\<close>

theorem csv_export_embedded_quote_unescaped:
  \<open>fst (downloadExport quote_page st) =
       \<lparr>content = Some ''Name,Type,Description\<newline>"a"b","DI",""\<newline>'',
        filename = ''PumpA.csv'', mime = ''text/csv''\<rparr>
   \<and> csv_escaped_content (collectTemplateData quote_page)
       = ''Name,Type,Description\<newline>"a""b","DI",""\<newline>''
   \<and> content (fst (downloadExport quote_page st))
       \<noteq> Some (csv_escaped_content (collectTemplateData quote_page))
   \<and> collectTemplateData split_name_page \<noteq> collectTemplateData split_description_page
   \<and> content (fst (downloadExport split_name_page st))
       = Some ''Name,Type,Description\<newline>"x","DI","DI","z"\<newline>''
   \<and> content (fst (downloadExport split_description_page st))
       = Some ''Name,Type,Description\<newline>"x","DI","DI","z"\<newline>''\<close>
proof -
  have quoted: \<open>fst (downloadExport quote_page st) =
       \<lparr>content = Some ''Name,Type,Description\<newline>"a"b","DI",""\<newline>'',
        filename = ''PumpA.csv'', mime = ''text/csv''\<rparr>\<close>
    by (simp add: downloadExport_def Let_def csv_formats quote_page_data export_file_def
        or_else_def csv_content_def csv_row_def interpolate_def)
  have escaped: \<open>csv_escaped_content (collectTemplateData quote_page)
       = ''Name,Type,Description\<newline>"a""b","DI",""\<newline>''\<close>
    by (simp add: quote_page_data csv_escaped_content_def csv_escaped_line_def csv_escape_def
        interpolate_def)
  have differ: "content (fst (downloadExport quote_page st))
       \<noteq> Some (csv_escaped_content (collectTemplateData quote_page))"
    by (simp add: quoted escaped)
  have pages: "collectTemplateData split_name_page \<noteq> collectTemplateData split_description_page"
    by (simp add: split_name_page_data split_description_page_data)
  have first: \<open>content (fst (downloadExport split_name_page st))
       = Some ''Name,Type,Description\<newline>"x","DI","DI","z"\<newline>''\<close>
    by (simp add: downloadExport_def Let_def csv_formats split_name_page_data export_file_def
        or_else_def csv_content_def csv_row_def interpolate_def)
  have second: \<open>content (fst (downloadExport split_description_page st))
       = Some ''Name,Type,Description\<newline>"x","DI","DI","z"\<newline>''\<close>
    by (simp add: downloadExport_def Let_def csv_formats split_description_page_data
        export_file_def or_else_def csv_content_def csv_row_def interpolate_def)
  from quoted escaped differ pages first second show ?thesis
    by (intro conjI)
qed

lemma pump_format: "exportFormat pump_page = Some ''xml''"
  by (simp add: pump_page_def)

lemma bracket_opening:
  "\<exists>rest. bracket [c] closing gap stepback partial = c # rest"
  by (simp add: bracket_def)

text \<open>
  Claim C2 fails on the code.  For every record the export chosen for the format
  \<open>xml\<close> has the text of \<open>JSON.stringify\<close>, the same as the export for \<open>json\<close>,
  under a name ending in \<open>.xml\<close> and the type \<open>application/xml\<close>; the text begins
  with a brace, so it is no XML document.
\<close>

theorem xml_export_is_json_text:
  \<open>content (export_file d ''xml'') = JSON_stringify (js_of_data d) 2
   \<and> content (export_file d ''xml'') = content (export_file d ''json'')
   \<and> (\<exists>rest. content (export_file d ''xml'') = Some (CHR ''{'' # rest))
   \<and> filename (export_file d ''xml'') = or_else (Some (name d)) ''template'' @ ''.xml''
   \<and> mime (export_file d ''xml'') = ''application/xml''
   \<and> fst (downloadExport pump_page st) =
       \<lparr>content = Some ''{\<newline>  "name": "PumpA",\<newline>  "category": "",\<newline>  "description": "",\<newline>  "attributes": [\<newline>    {\<newline>      "name": "Flow",\<newline>      "type": "AI_REAL",\<newline>      "description": ""\<newline>    }\<newline>  ]\<newline>}'',
        filename = ''PumpA.xml'', mime = ''application/xml''\<rparr>\<close>
proof -
  have brace: "\<exists>rest. content (export_file d ''xml'') = Some (CHR ''{'' # rest)"
    using bracket_opening [of "CHR ''{''"]
    by (simp add: export_file_def JSON_stringify_def js_of_data_def)
  have sample: \<open>fst (downloadExport pump_page st) =
       \<lparr>content = Some ''{\<newline>  "name": "PumpA",\<newline>  "category": "",\<newline>  "description": "",\<newline>  "attributes": [\<newline>    {\<newline>      "name": "Flow",\<newline>      "type": "AI_REAL",\<newline>      "description": ""\<newline>    }\<newline>  ]\<newline>}'',
        filename = ''PumpA.xml'', mime = ''application/xml''\<rparr>\<close>
    by (simp add: downloadExport_def pump_data export_file_def JSON_stringify_def js_of_data_def
        js_of_attribute_def js_of_optional_def bracket_def QuoteJSONString_def quote_char_def
        or_else_def pump_format numeral_2_eq_2 Let_def)
  from brace sample show ?thesis
    by (simp add: export_file_def)
qed

text \<open>
  Claim C8 fails on the code.  \<open>filterSavedConfigs\<close> writes a line to the console and
  nothing else: the saved configurations and the cards on the page stay as they are.
  After \<open>PumpA\<close> is saved and drawn, a search for \<open>Valve\<close> still shows \<open>PumpA\<close>.
\<close>

theorem filterSavedConfigs_filters_nothing:
  "savedConfigs (filterSavedConfigs searchTerm st) = savedConfigs st
   \<and> configsGrid (filterSavedConfigs searchTerm st) = configsGrid st
   \<and> map cfg_name (configsGrid (filterSavedConfigs ''Valve'' (loadSavedConfigsData
        (snd (saveTemplate pump_page 1700000000000 ''2023-11-14T22:13:20.000Z'' constructor)))))
       = [''PumpA'']"
  by (simp add: filterSavedConfigs_def loadSavedConfigsData_def saveTemplate_saved pump_data
      newConfig_def constructor_def)

section \<open>Properties of the quick reference\<close>

lemma startsWith_iff: "startsWith s t = (\<exists>after. s = t @ after)"
  by (induction s t rule: startsWith.induct) auto

lemma js_includes_iff: "js_includes s t = (\<exists>before after. s = before @ t @ after)"
proof (induction s)
  case Nil
  show ?case by auto
next
  case (Cons a s)
  have "(\<exists>before after. a # s = before @ t @ after)
      = ((\<exists>after. a # s = t @ after) \<or> (\<exists>before after. s = before @ t @ after))"
    (is "?l = (?here \<or> ?later)")
  proof
    assume ?l
    then obtain before after where eq: "a # s = before @ t @ after" by blast
    show "?here \<or> ?later"
    proof (cases before)
      case Nil
      with eq show ?thesis by auto
    next
      case (Cons b before')
      with eq have "s = before' @ t @ after" by simp
      then show ?thesis by blast
    qed
  next
    assume "?here \<or> ?later"
    then show ?l
    proof
      assume ?here
      then obtain after where "a # s = [] @ t @ after" by auto
      then show ?l by blast
    next
      assume ?later
      then obtain before after where "s = before @ t @ after" by blast
      then have "a # s = (a # before) @ t @ after" by simp
      then show ?l by blast
    qed
  qed
  with Cons.IH show ?case
    by (simp add: startsWith_iff)
qed

lemma search_match_iff:
  "search_match searchText entry =
     (contains_ci (ref_name entry) searchText \<or> contains_ci (ref_description entry) searchText
      \<or> contains_ci (ref_category entry) searchText)"
  by (simp add: search_match_def contains_ci_def js_includes_iff)

lemma contains_ci_empty: "contains_ci t []"
  unfolding contains_ci_def toLowerCase_def by (metis append_Nil list.simps(8))

lemma toLowerCase_simps:
  "toLowerCase [] = []"
  "toLowerCase (c # s) = toLowerCase_char c # toLowerCase s"
  by (simp_all add: toLowerCase_def)

lemma digital_lower: "toLowerCase ''digital'' = ''digital''"
  by (simp add: toLowerCase_def toLowerCase_char_def upper_case_def lower_case_def)

lemma toLowerCase_char_table:
  "toLowerCase_char CHR '' '' = CHR '' ''"
  "toLowerCase_char CHR ''-'' = CHR ''-''"
  "toLowerCase_char CHR ''/'' = CHR ''/''"
  "toLowerCase_char CHR ''0'' = CHR ''0''"
  "toLowerCase_char CHR ''1'' = CHR ''1''"
  "toLowerCase_char CHR ''2'' = CHR ''2''"
  "toLowerCase_char CHR ''3'' = CHR ''3''"
  "toLowerCase_char CHR ''4'' = CHR ''4''"
  "toLowerCase_char CHR ''5'' = CHR ''5''"
  "toLowerCase_char CHR ''6'' = CHR ''6''"
  "toLowerCase_char CHR ''8'' = CHR ''8''"
  "toLowerCase_char CHR ''A'' = CHR ''a''"
  "toLowerCase_char CHR ''B'' = CHR ''b''"
  "toLowerCase_char CHR ''C'' = CHR ''c''"
  "toLowerCase_char CHR ''D'' = CHR ''d''"
  "toLowerCase_char CHR ''E'' = CHR ''e''"
  "toLowerCase_char CHR ''F'' = CHR ''f''"
  "toLowerCase_char CHR ''G'' = CHR ''g''"
  "toLowerCase_char CHR ''I'' = CHR ''i''"
  "toLowerCase_char CHR ''L'' = CHR ''l''"
  "toLowerCase_char CHR ''M'' = CHR ''m''"
  "toLowerCase_char CHR ''N'' = CHR ''n''"
  "toLowerCase_char CHR ''O'' = CHR ''o''"
  "toLowerCase_char CHR ''P'' = CHR ''p''"
  "toLowerCase_char CHR ''R'' = CHR ''r''"
  "toLowerCase_char CHR ''S'' = CHR ''s''"
  "toLowerCase_char CHR ''T'' = CHR ''t''"
  "toLowerCase_char CHR ''U'' = CHR ''u''"
  "toLowerCase_char CHR ''V'' = CHR ''v''"
  "toLowerCase_char CHR ''W'' = CHR ''w''"
  "toLowerCase_char CHR ''Y'' = CHR ''y''"
  "toLowerCase_char CHR ''_'' = CHR ''_''"
  "toLowerCase_char CHR ''a'' = CHR ''a''"
  "toLowerCase_char CHR ''b'' = CHR ''b''"
  "toLowerCase_char CHR ''c'' = CHR ''c''"
  "toLowerCase_char CHR ''d'' = CHR ''d''"
  "toLowerCase_char CHR ''e'' = CHR ''e''"
  "toLowerCase_char CHR ''f'' = CHR ''f''"
  "toLowerCase_char CHR ''g'' = CHR ''g''"
  "toLowerCase_char CHR ''h'' = CHR ''h''"
  "toLowerCase_char CHR ''i'' = CHR ''i''"
  "toLowerCase_char CHR ''l'' = CHR ''l''"
  "toLowerCase_char CHR ''m'' = CHR ''m''"
  "toLowerCase_char CHR ''n'' = CHR ''n''"
  "toLowerCase_char CHR ''o'' = CHR ''o''"
  "toLowerCase_char CHR ''p'' = CHR ''p''"
  "toLowerCase_char CHR ''r'' = CHR ''r''"
  "toLowerCase_char CHR ''s'' = CHR ''s''"
  "toLowerCase_char CHR ''t'' = CHR ''t''"
  "toLowerCase_char CHR ''u'' = CHR ''u''"
  "toLowerCase_char CHR ''w'' = CHR ''w''"
  "toLowerCase_char CHR ''x'' = CHR ''x''"
  "toLowerCase_char CHR ''y'' = CHR ''y''"
  by (simp_all add: toLowerCase_char_def upper_case_def lower_case_def)

lemma digital_matches:
  "filter (search_match ''digital'') allData = filter (\<lambda>entry. ref_type entry = ''digital'') allData"
  by (simp add: allData_def search_match_def toLowerCase_simps toLowerCase_char_table)

lemma length_allData: "length allData = 31"
  by (simp add: allData_def)

text \<open>
  Claim C7.  With no filter (\<open>filterType = 'all'\<close>, \<open>searchTerm = ''\<close>) the grid shows
  the whole table of 31 entries in the order of its declaration.  With a search text
  it shows, in that order, exactly the entries whose name, description or category
  contains the search text as a case-insensitive substring.  The search text
  \<open>digital\<close> gives the six entries of the type \<open>digital\<close>.
\<close>

theorem catalog_list_unfiltered_and_search:
  "displayFilteredData ''all'' [] (Some cards) = Some allData
   \<and> length allData = 31
   \<and> displayFilteredData ''all'' searchText (Some cards)
       = Some (filter (\<lambda>entry. contains_ci (ref_name entry) searchText
                         \<or> contains_ci (ref_description entry) searchText
                         \<or> contains_ci (ref_category entry) searchText) allData)
   \<and> displayFilteredData ''all'' ''digital'' (Some cards)
       = Some (filter (\<lambda>entry. ref_type entry = ''digital'') allData)
   \<and> map ref_name (filter (\<lambda>entry. ref_type entry = ''digital'') allData)
       = [''DI'', ''DO'', ''DI_WORD'', ''DO_WORD'', ''DI_DWORD'', ''DO_DWORD'']"
proof -
  have unfiltered: "displayFilteredData ''all'' [] (Some cards) = Some allData"
    by (simp add: displayFilteredData_def getReferenceDataByFilter_def)
  have search: "displayFilteredData ''all'' searchText (Some cards)
       = Some (filter (\<lambda>entry. contains_ci (ref_name entry) searchText
                         \<or> contains_ci (ref_description entry) searchText
                         \<or> contains_ci (ref_category entry) searchText) allData)"
  proof (cases "searchText = []")
    case True
    then show ?thesis
      by (simp add: displayFilteredData_def getReferenceDataByFilter_def contains_ci_empty)
  next
    case False
    have "filter (search_match searchText) allData
        = filter (\<lambda>entry. contains_ci (ref_name entry) searchText
                         \<or> contains_ci (ref_description entry) searchText
                         \<or> contains_ci (ref_category entry) searchText) allData"
      by (rule filter_cong) (simp_all add: search_match_iff)
    with False show ?thesis
      by (simp add: displayFilteredData_def getReferenceDataByFilter_def)
  qed
  have digital: "displayFilteredData ''all'' ''digital'' (Some cards)
       = Some (filter (\<lambda>entry. ref_type entry = ''digital'') allData)"
    using digital_matches by (simp add: displayFilteredData_def getReferenceDataByFilter_def)
  have names: "map ref_name (filter (\<lambda>entry. ref_type entry = ''digital'') allData)
       = [''DI'', ''DO'', ''DI_WORD'', ''DO_WORD'', ''DI_DWORD'', ''DO_DWORD'']"
    by (simp add: allData_def)
  from unfiltered length_allData search digital names show ?thesis
    by (intro conjI)
qed

section \<open>Properties of the JSON reader\<close>

lemma skip_ws_blank: "blank w \<Longrightarrow> skip_ws (w @ s) = skip_ws s"
  by (simp add: blank_def skip_ws_def dropWhile_append2)

lemma skip_ws_start: "\<not> is_ws c \<Longrightarrow> skip_ws (c # s) = c # s"
  by (simp add: skip_ws_def)

lemma skip_ws_blank_start: "blank w \<Longrightarrow> \<not> is_ws c \<Longrightarrow> skip_ws (w @ c # s) = c # s"
  by (simp add: skip_ws_blank skip_ws_start)

lemma blank_simps:
  "blank []"
  "blank (c # w) = (is_ws c \<and> blank w)"
  "blank (u @ w) = (blank u \<and> blank w)"
  by (auto simp: blank_def)

lemma hex_value_hex_char_all: "\<forall>k<16. hex_value (hex_char k) = Some k"
  by (simp add: numeral_eq_Suc All_less_Suc hex_value_def hex_char_def)

lemma hex_value_hex_char: "k < 16 \<Longrightarrow> hex_value (hex_char k) = Some k"
  using hex_value_hex_char_all by blast

lemma hex_value_zero: "hex_value CHR ''0'' = Some 0"
  by (simp add: hex_value_def)

lemma unicode_unit_escape:
  "unicode_unit CHR ''0'' CHR ''0'' (hex_char ((of_char c :: nat) div 16))
     (hex_char ((of_char c :: nat) mod 16)) = Some c"
proof -
  have "(of_char c :: nat) < 16 * 16"
    using nat_of_char_less_256 [of c] by simp
  then have hi: "(of_char c :: nat) div 16 < 16"
    by (rule less_mult_imp_div_less)
  have lo: "(of_char c :: nat) mod 16 < 16" by simp
  show ?thesis
    by (simp add: unicode_unit_def hex_value_zero hex_value_hex_char [OF hi]
        hex_value_hex_char [OF lo])
qed

lemma parse_chars_quote_char:
  "parse_chars (quote_char c @ t) = add_char c (parse_chars t)"
proof -
  consider (short) "c \<in> set [CHR 0x08, CHR 0x09, CHR 0x0A, CHR 0x0C, CHR 0x0D, CHR 0x22, CHR 0x5C]"
    | (control) "c \<notin> set [CHR 0x08, CHR 0x09, CHR 0x0A, CHR 0x0C, CHR 0x0D, CHR 0x22, CHR 0x5C]"
        "(of_char c :: nat) < 32"
    | (plain) "c \<notin> set [CHR 0x08, CHR 0x09, CHR 0x0A, CHR 0x0C, CHR 0x0D, CHR 0x22, CHR 0x5C]"
        "\<not> (of_char c :: nat) < 32"
    by blast
  then show ?thesis
  proof cases
    case short
    then show ?thesis
      by (auto simp: quote_char_def unescape_def)
  next
    case control
    then show ?thesis
      by (simp add: quote_char_def UnicodeEscape_def unicode_unit_escape)
  next
    case plain
    then show ?thesis
      by (simp add: quote_char_def)
  qed
qed

lemma parse_chars_quoted:
  "parse_chars (concat (map quote_char s) @ CHR 0x22 # rest) = Some (s, rest)"
  by (induction s) (simp_all add: parse_chars_quote_char add_char_def)

lemma starts_value_not_ws:
  "starts_value (c # t) \<Longrightarrow>
     \<not> is_ws c \<and> c \<noteq> CHR '']'' \<and> c \<noteq> CHR ''}'' \<and> c \<noteq> CHR '','' \<and> c \<noteq> CHR '':''"
  by (auto simp: starts_value_def is_ws_def)

lemma reads_back_JString: "reads_back gap (JString s)"
proof -
  have "parse_value n (w @ QuoteJSONString s @ rest) = Some (JString s, rest)"
    if "blank w" "length (QuoteJSONString s) \<le> n" for n w rest
  proof -
    from that(2) obtain m where n: "n = Suc m"
      by (cases n) (simp_all add: QuoteJSONString_def)
    have "skip_ws (w @ QuoteJSONString s @ rest)
        = CHR 0x22 # concat (map quote_char s) @ CHR 0x22 # rest"
      using that(1) by (simp add: QuoteJSONString_def skip_ws_blank_start is_ws_def)
    then show ?thesis
      by (simp add: n parse_chars_quoted)
  qed
  then show ?thesis
    by (simp add: reads_back_def starts_value_def QuoteJSONString_def)
qed

lemma reads_back_JNull: "reads_back gap JNull"
proof -
  have "parse_value n (w @ ''null'' @ rest) = Some (JNull, rest)"
    if "blank w" "length ''null'' \<le> n" for n w rest
  proof -
    from that(2) obtain m where n: "n = Suc m" by (cases n) simp_all
    have "skip_ws (w @ ''null'' @ rest) = ''null'' @ rest"
      using that(1) by (simp add: skip_ws_blank_start is_ws_def)
    then show ?thesis by (simp add: n)
  qed
  then show ?thesis
    by (simp add: reads_back_def starts_value_def)
qed

lemma reads_back_JBool: "reads_back gap (JBool b)"
proof -
  have t: "parse_value n (w @ ''true'' @ rest) = Some (JBool True, rest)"
    if "blank w" "length ''true'' \<le> n" for n w rest
  proof -
    from that(2) obtain m where n: "n = Suc m" by (cases n) simp_all
    have "skip_ws (w @ ''true'' @ rest) = ''true'' @ rest"
      using that(1) by (simp add: skip_ws_blank_start is_ws_def)
    then show ?thesis by (simp add: n)
  qed
  have f: "parse_value n (w @ ''false'' @ rest) = Some (JBool False, rest)"
    if "blank w" "length ''false'' \<le> n" for n w rest
  proof -
    from that(2) obtain m where n: "n = Suc m" by (cases n) simp_all
    have "skip_ws (w @ ''false'' @ rest) = ''false'' @ rest"
      using that(1) by (simp add: skip_ws_blank_start is_ws_def)
    then show ?thesis by (simp add: n)
  qed
  from t f show ?thesis
    by (cases b) (simp_all add: reads_back_def starts_value_def)
qed

lemma join_Cons: "join sep (p # ps) = (if ps = [] then p else p @ sep @ join sep ps)"
  by (cases ps) simp_all

lemma bracket_nonempty:
  "partial \<noteq> [] \<Longrightarrow>
   bracket [opening] [closing] gap stepback partial =
     opening # ws_open gap stepback @ join (CHR '','' # ws_open gap stepback) partial
       @ ws_close gap stepback @ [closing]"
  by (simp add: bracket_def ws_open_def ws_close_def)

lemma blank_ws_open: "blank gap \<Longrightarrow> blank stepback \<Longrightarrow> blank (ws_open gap stepback)"
  by (simp add: ws_open_def blank_simps is_ws_def)

lemma blank_ws_close: "blank stepback \<Longrightarrow> blank (ws_close gap stepback)"
  by (simp add: ws_close_def blank_simps is_ws_def)

lemma array_partial_Nil_iff: "(array_partial gap indent xs = []) = (xs = [])"
  by (cases xs) (simp_all split: option.splits)

lemma parse_elements_joined:
  assumes "blank indent" "blank sepw" "blank w2"
  shows "\<forall>x\<in>set xs. reads_back gap x \<Longrightarrow> xs \<noteq> [] \<Longrightarrow> blank w \<Longrightarrow>
    length (join (CHR '','' # sepw) (array_partial gap indent xs)) < m \<Longrightarrow>
    parse_elements m (w @ join (CHR '','' # sepw) (array_partial gap indent xs)
                        @ w2 @ CHR '']'' # rest) = Some (xs, rest)"
proof (induction xs arbitrary: m w)
  case Nil
  then show ?case by simp
next
  case (Cons x xs)
  from Cons.prems(1) have "reads_back gap x" by simp
  with assms(1) obtain sx where sx: "SerializeJSONProperty gap indent x = Some sx"
    and rd: "\<And>n w rest. blank w \<Longrightarrow> length sx \<le> n \<Longrightarrow>
               parse_value n (w @ sx @ rest) = Some (x, rest)"
    unfolding reads_back_def by blast
  from Cons.prems(4) obtain n where m: "m = Suc n" by (cases m) simp_all
  show ?case
  proof (cases "xs = []")
    case True
    with sx Cons.prems(4) m have len: "length sx \<le> n" by simp
    have "parse_value n (w @ sx @ (w2 @ CHR '']'' # rest)) = Some (x, w2 @ CHR '']'' # rest)"
      using Cons.prems(3) len by (rule rd)
    moreover have "skip_ws (w2 @ CHR '']'' # rest) = CHR '']'' # rest"
      using assms(3) by (simp add: skip_ws_blank_start is_ws_def)
    ultimately show ?thesis
      using True sx by (simp add: m)
  next
    case False
    define J where "J = join (CHR '','' # sepw) (array_partial gap indent xs)"
    from False have partial: "array_partial gap indent xs \<noteq> []"
      by (simp add: array_partial_Nil_iff)
    with sx have joined: "join (CHR '','' # sepw) (array_partial gap indent (x # xs))
        = sx @ CHR '','' # sepw @ J"
      by (simp add: join_Cons J_def)
    with Cons.prems(4) m have len: "length sx \<le> n" and lenJ: "length J < n"
      by simp_all
    have "parse_value n (w @ sx @ (CHR '','' # sepw @ J @ w2 @ CHR '']'' # rest))
        = Some (x, CHR '','' # sepw @ J @ w2 @ CHR '']'' # rest)"
      using Cons.prems(3) len by (rule rd)
    moreover have "skip_ws (CHR '','' # sepw @ J @ w2 @ CHR '']'' # rest)
        = CHR '','' # sepw @ J @ w2 @ CHR '']'' # rest"
      by (simp add: skip_ws_start is_ws_def)
    moreover have "parse_elements n (sepw @ J @ w2 @ CHR '']'' # rest) = Some (xs, rest)"
      unfolding J_def using Cons.prems(1) False assms(2) lenJ
      by (intro Cons.IH) (simp_all add: J_def)
    moreover have "w @ join (CHR '','' # sepw) (array_partial gap indent (x # xs))
          @ w2 @ CHR '']'' # rest
        = w @ sx @ (CHR '','' # sepw @ J @ w2 @ CHR '']'' # rest)"
      using joined by simp
    ultimately show ?thesis
      by (simp only: m parse_elements.simps) simp
  qed
qed

lemma object_partial_Nil_iff:
  "\<forall>p\<in>set ps. reads_back gap (snd p) \<Longrightarrow> blank indent \<Longrightarrow>
   (object_partial gap indent ps = []) = (ps = [])"
proof (cases ps)
  case Nil
  then show ?thesis by simp
next
  case (Cons p ps')
  assume "\<forall>p\<in>set ps. reads_back gap (snd p)" "blank indent"
  with Cons obtain sv where "SerializeJSONProperty gap indent (snd p) = Some sv"
    unfolding reads_back_def by fastforce
  with Cons show ?thesis by (cases p) simp
qed

lemma parse_members_joined:
  assumes "blank indent" "blank sepw" "blank w2"
  shows "\<forall>p\<in>set ps. reads_back gap (snd p) \<Longrightarrow> ps \<noteq> [] \<Longrightarrow> blank w \<Longrightarrow>
    length (join (CHR '','' # sepw) (object_partial gap indent ps)) < m \<Longrightarrow>
    parse_members m (w @ join (CHR '','' # sepw) (object_partial gap indent ps)
                       @ w2 @ CHR ''}'' # rest) = Some (ps, rest)"
proof (induction ps arbitrary: m w)
  case Nil
  then show ?case by simp
next
  case (Cons p ps)
  obtain k v where p: "p = (k, v)" by (cases p)
  from Cons.prems(1) p have "reads_back gap v" by simp
  with assms(1) obtain sv where sv: "SerializeJSONProperty gap indent v = Some sv"
    and rd: "\<And>n w rest. blank w \<Longrightarrow> length sv \<le> n \<Longrightarrow>
               parse_value n (w @ sv @ rest) = Some (v, rest)"
    unfolding reads_back_def by blast
  define sp :: string where "sp = (if gap \<noteq> [] then '' '' else [])"
  have sp: "blank sp"
    by (simp add: sp_def blank_simps is_ws_def)
  define body where "body = concat (map quote_char k)"
  have member: "object_partial gap indent (p # ps)
      = (CHR 0x22 # body @ CHR 0x22 # CHR '':'' # sp @ sv) # object_partial gap indent ps"
    using sv by (simp add: p QuoteJSONString_def sp_def body_def)
  from Cons.prems(4) obtain n where m: "m = Suc n" by (cases m) simp_all
  have key: "parse_chars (body @ CHR 0x22 # t) = Some (k, t)" for t
    unfolding body_def by (rule parse_chars_quoted)
  show ?case
  proof (cases "ps = []")
    case True
    with member Cons.prems(4) m have len: "length sv \<le> n" by simp
    have text_eq: "w @ join (CHR '','' # sepw) (object_partial gap indent (p # ps))
          @ w2 @ CHR ''}'' # rest
        = w @ CHR 0x22 # body @ CHR 0x22 # (CHR '':'' # sp @ sv @ w2 @ CHR ''}'' # rest)"
      using member True by simp
    have s1: "skip_ws (w @ CHR 0x22 # body @ CHR 0x22 # (CHR '':'' # sp @ sv @ w2 @ CHR ''}'' # rest))
        = CHR 0x22 # body @ CHR 0x22 # (CHR '':'' # sp @ sv @ w2 @ CHR ''}'' # rest)"
      using Cons.prems(3) by (simp add: skip_ws_blank_start is_ws_def)
    have s2: "skip_ws (CHR '':'' # sp @ sv @ w2 @ CHR ''}'' # rest)
        = CHR '':'' # sp @ sv @ w2 @ CHR ''}'' # rest"
      by (simp add: skip_ws_start is_ws_def)
    have pv: "parse_value n (sp @ sv @ (w2 @ CHR ''}'' # rest)) = Some (v, w2 @ CHR ''}'' # rest)"
      using sp len by (rule rd)
    have s3: "skip_ws (w2 @ CHR ''}'' # rest) = CHR ''}'' # rest"
      using assms(3) by (simp add: skip_ws_blank_start is_ws_def)
    show ?thesis
      unfolding text_eq m using True pv
      by (simp add: s1 s2 s3 key p)
  next
    case False
    define J where "J = join (CHR '','' # sepw) (object_partial gap indent ps)"
    from Cons.prems(1) have rest_back: "\<forall>p\<in>set ps. reads_back gap (snd p)" by simp
    with False assms(1) have partial: "object_partial gap indent ps \<noteq> []"
      by (simp add: object_partial_Nil_iff)
    with member have joined: "join (CHR '','' # sepw) (object_partial gap indent (p # ps))
        = CHR 0x22 # body @ CHR 0x22 # CHR '':'' # sp @ sv @ CHR '','' # sepw @ J"
      by (simp add: join_Cons J_def)
    with Cons.prems(4) m have len: "length sv \<le> n" and lenJ: "length J < n"
      by simp_all
    have text_eq: "w @ join (CHR '','' # sepw) (object_partial gap indent (p # ps))
          @ w2 @ CHR ''}'' # rest
        = w @ CHR 0x22 # body @ CHR 0x22
            # (CHR '':'' # sp @ sv @ CHR '','' # sepw @ J @ w2 @ CHR ''}'' # rest)"
      using joined by simp
    have s1: "skip_ws (w @ CHR 0x22 # body @ CHR 0x22
            # (CHR '':'' # sp @ sv @ CHR '','' # sepw @ J @ w2 @ CHR ''}'' # rest))
        = CHR 0x22 # body @ CHR 0x22
            # (CHR '':'' # sp @ sv @ CHR '','' # sepw @ J @ w2 @ CHR ''}'' # rest)"
      using Cons.prems(3) by (simp add: skip_ws_blank_start is_ws_def)
    have s2: "skip_ws (CHR '':'' # sp @ sv @ CHR '','' # sepw @ J @ w2 @ CHR ''}'' # rest)
        = CHR '':'' # sp @ sv @ CHR '','' # sepw @ J @ w2 @ CHR ''}'' # rest"
      by (simp add: skip_ws_start is_ws_def)
    have pv: "parse_value n (sp @ sv @ (CHR '','' # sepw @ J @ w2 @ CHR ''}'' # rest))
        = Some (v, CHR '','' # sepw @ J @ w2 @ CHR ''}'' # rest)"
      using sp len by (rule rd)
    have s3: "skip_ws (CHR '','' # sepw @ J @ w2 @ CHR ''}'' # rest)
        = CHR '','' # sepw @ J @ w2 @ CHR ''}'' # rest"
      by (simp add: skip_ws_start is_ws_def)
    have more: "parse_members n (sepw @ J @ w2 @ CHR ''}'' # rest) = Some (ps, rest)"
      unfolding J_def using rest_back False assms(2) lenJ
      by (intro Cons.IH) (simp_all add: J_def)
    show ?thesis
      unfolding text_eq m using pv more
      by (simp add: s1 s2 s3 key p)
  qed
qed

lemma join_starts_value:
  "starts_value p \<Longrightarrow> \<exists>c t. join sep (p # ps) = c # t \<and> starts_value [c]"
  by (auto simp: join_Cons starts_value_def)

lemma reads_back_JArray:
  assumes "blank gap" "\<forall>x\<in>set xs. reads_back gap x"
  shows "reads_back gap (JArray xs)"
  unfolding reads_back_def
proof (intro allI impI)
  fix indent
  assume ind: "blank indent"
  define partial where "partial = array_partial gap (indent @ gap) xs"
  define strP where "strP = bracket ''['' '']'' gap indent partial"
  have ser: "SerializeJSONProperty gap indent (JArray xs) = Some strP"
    by (simp add: strP_def partial_def)
  have start: "starts_value strP"
    by (simp add: strP_def bracket_def starts_value_def)
  have parse: "parse_value n (w @ strP @ rest) = Some (JArray xs, rest)"
    if w: "blank w" and n: "length strP \<le> n" for n w rest
  proof (cases "xs = []")
    case True
    then have text_eq: "strP = ''[]''"
      by (simp add: strP_def partial_def bracket_def)
    with n obtain m where m: "n = Suc m" by (cases n) simp_all
    have s1: "skip_ws (w @ CHR ''['' # CHR '']'' # rest) = CHR ''['' # CHR '']'' # rest"
      using w by (simp add: skip_ws_blank_start is_ws_def)
    have s2: "skip_ws (CHR '']'' # rest) = CHR '']'' # rest"
      by (simp add: skip_ws_start is_ws_def)
    show ?thesis
      unfolding text_eq m using True by (simp add: s1 s2)
  next
    case False
    then obtain x xs' where xs: "xs = x # xs'" by (cases xs) simp_all
    define w0 where "w0 = ws_open gap indent"
    define w2 where "w2 = ws_close gap indent"
    define J where "J = join (CHR '','' # w0) partial"
    have blanks: "blank (indent @ gap)" "blank w0" "blank w2"
      using assms(1) ind by (simp_all add: blank_simps w0_def w2_def blank_ws_open blank_ws_close)
    from False have nonempty: "partial \<noteq> []"
      by (simp add: partial_def array_partial_Nil_iff)
    then have text_eq: "strP = CHR ''['' # w0 @ J @ w2 @ '']''"
      unfolding strP_def J_def w0_def w2_def by (rule bracket_nonempty)
    from assms(2) xs have "reads_back gap x" by simp
    with blanks(1) obtain sx where "SerializeJSONProperty gap (indent @ gap) x = Some sx"
      and "starts_value sx"
      unfolding reads_back_def by blast
    then obtain c t where J: "J = c # t" and c: "starts_value [c]"
      using join_starts_value [of sx "CHR '','' # w0" "array_partial gap (indent @ gap) xs'"]
      by (auto simp: J_def partial_def xs)
    from c have c_ws: "\<not> is_ws c" and c_close: "c \<noteq> CHR '']''"
      using starts_value_not_ws [of c "[]"] by simp_all
    from n text_eq obtain m where m: "n = Suc m" and lenJ: "length J < m"
      by (cases n) simp_all
    have s1: "skip_ws (w @ CHR ''['' # w0 @ J @ w2 @ CHR '']'' # rest)
        = CHR ''['' # w0 @ J @ w2 @ CHR '']'' # rest"
      using w by (simp add: skip_ws_blank_start is_ws_def)
    have s2: "skip_ws (w0 @ J @ w2 @ CHR '']'' # rest) = c # t @ w2 @ CHR '']'' # rest"
      using blanks(2) c_ws by (simp add: J skip_ws_blank_start)
    have "parse_elements m ([] @ J @ w2 @ CHR '']'' # rest) = Some (xs, rest)"
      unfolding J_def partial_def using blanks assms(2) False lenJ
      by (intro parse_elements_joined) (simp_all add: blank_simps J_def partial_def)
    then have pe: "parse_elements m (c # t @ w2 @ CHR '']'' # rest) = Some (xs, rest)"
      by (simp add: J)
    show ?thesis
      unfolding text_eq m using c_close
      by (simp add: s1 s2 pe)
  qed
  from ser start parse
  show "\<exists>strP. SerializeJSONProperty gap indent (JArray xs) = Some strP \<and> starts_value strP
      \<and> (\<forall>n w rest. blank w \<longrightarrow> length strP \<le> n \<longrightarrow>
            parse_value n (w @ strP @ rest) = Some (JArray xs, rest))"
    by blast
qed

lemma obj_put_fresh: "fst kv \<notin> fst ` set acc \<Longrightarrow> obj_put acc kv = acc @ [kv]"
  by (induction acc) auto

lemma foldl_obj_put_distinct:
  "distinct (map fst (acc @ ps)) \<Longrightarrow> foldl obj_put acc ps = acc @ ps"
proof (induction ps arbitrary: acc)
  case Nil
  then show ?case by simp
next
  case (Cons p ps)
  then have "obj_put acc p = acc @ [p]"
    by (intro obj_put_fresh) auto
  with Cons.IH [of "acc @ [p]"] Cons.prems show ?case by simp
qed

lemma reads_back_JObject:
  assumes "blank gap" "\<forall>p\<in>set ps. reads_back gap (snd p)" "distinct (map fst ps)"
  shows "reads_back gap (JObject ps)"
  unfolding reads_back_def
proof (intro allI impI)
  fix indent
  assume ind: "blank indent"
  define partial where "partial = object_partial gap (indent @ gap) ps"
  define strP where "strP = bracket ''{'' ''}'' gap indent partial"
  have ser: "SerializeJSONProperty gap indent (JObject ps) = Some strP"
    by (simp add: strP_def partial_def)
  have start: "starts_value strP"
    by (simp add: strP_def bracket_def starts_value_def)
  have put: "foldl obj_put [] ps = ps"
    using assms(3) foldl_obj_put_distinct [of "[]" ps] by simp
  have parse: "parse_value n (w @ strP @ rest) = Some (JObject ps, rest)"
    if w: "blank w" and n: "length strP \<le> n" for n w rest
  proof (cases "ps = []")
    case True
    then have text_eq: "strP = ''{}''"
      by (simp add: strP_def partial_def bracket_def)
    with n obtain m where m: "n = Suc m" by (cases n) simp_all
    have s1: "skip_ws (w @ CHR ''{'' # CHR ''}'' # rest) = CHR ''{'' # CHR ''}'' # rest"
      using w by (simp add: skip_ws_blank_start is_ws_def)
    have s2: "skip_ws (CHR ''}'' # rest) = CHR ''}'' # rest"
      by (simp add: skip_ws_start is_ws_def)
    show ?thesis
      unfolding text_eq m using True by (simp add: s1 s2)
  next
    case False
    then obtain p ps' where ps: "ps = p # ps'" by (cases ps) simp_all
    obtain k v where p: "p = (k, v)" by (cases p)
    define w0 where "w0 = ws_open gap indent"
    define w2 where "w2 = ws_close gap indent"
    define J where "J = join (CHR '','' # w0) partial"
    have blanks: "blank (indent @ gap)" "blank w0" "blank w2"
      using assms(1) ind by (simp_all add: blank_simps w0_def w2_def blank_ws_open blank_ws_close)
    from False assms(2) blanks(1) have nonempty: "partial \<noteq> []"
      by (simp add: partial_def object_partial_Nil_iff)
    then have text_eq: "strP = CHR ''{'' # w0 @ J @ w2 @ ''}''"
      unfolding strP_def J_def w0_def w2_def by (rule bracket_nonempty)
    from assms(2) ps p have "reads_back gap v" by simp
    with blanks(1) obtain sv where "SerializeJSONProperty gap (indent @ gap) v = Some sv"
      unfolding reads_back_def by blast
    then have "\<exists>t. J = CHR 0x22 # t"
      by (simp add: J_def partial_def ps p join_Cons QuoteJSONString_def)
    then obtain t where J: "J = CHR 0x22 # t" by blast
    from n text_eq obtain m where m: "n = Suc m" and lenJ: "length J < m"
      by (cases n) simp_all
    have s1: "skip_ws (w @ CHR ''{'' # w0 @ J @ w2 @ CHR ''}'' # rest)
        = CHR ''{'' # w0 @ J @ w2 @ CHR ''}'' # rest"
      using w by (simp add: skip_ws_blank_start is_ws_def)
    have s2: "skip_ws (w0 @ J @ w2 @ CHR ''}'' # rest) = CHR 0x22 # t @ w2 @ CHR ''}'' # rest"
      using blanks(2) by (simp add: J skip_ws_blank_start is_ws_def)
    have "parse_members m ([] @ J @ w2 @ CHR ''}'' # rest) = Some (ps, rest)"
      unfolding J_def partial_def using blanks assms(2) False lenJ
      by (intro parse_members_joined) (simp_all add: blank_simps J_def partial_def)
    then have pm: "parse_members m (CHR 0x22 # t @ w2 @ CHR ''}'' # rest) = Some (ps, rest)"
      by (simp add: J)
    show ?thesis
      unfolding text_eq m
      by (simp add: s1 s2 pm put)
  qed
  from ser start parse
  show "\<exists>strP. SerializeJSONProperty gap indent (JObject ps) = Some strP \<and> starts_value strP
      \<and> (\<forall>n w rest. blank w \<longrightarrow> length strP \<le> n \<longrightarrow>
            parse_value n (w @ strP @ rest) = Some (JObject ps, rest))"
    by blast
qed

lemma well_formed_reads_back:
  assumes "blank gap"
  shows "well_formed v \<Longrightarrow> reads_back gap v"
    and "well_formed_list xs \<Longrightarrow> \<forall>x\<in>set xs. reads_back gap x"
    and "well_formed_members ps \<Longrightarrow> \<forall>p\<in>set ps. reads_back gap (snd p)"
proof (induction v and xs and ps rule: well_formed_well_formed_list_well_formed_members.induct)
  case 1
  then show ?case by simp
next
  case 2
  show ?case by (rule reads_back_JNull)
next
  case (3 b)
  show ?case by (rule reads_back_JBool)
next
  case (4 s)
  show ?case by (rule reads_back_JString)
next
  case (5 xs)
  then show ?case using assms by (simp add: reads_back_JArray)
next
  case (6 ps)
  then show ?case using assms by (simp add: reads_back_JObject)
next
  case 7
  show ?case by simp
next
  case (8 x xs)
  then show ?case by simp
next
  case 9
  show ?case by simp
next
  case (10 k v ps)
  then show ?case by simp
qed

lemma JSON_parse_stringify:
  assumes "well_formed v" and "JSON_stringify v space = Some s"
  shows "JSON_parse s = Some v"
proof -
  have gap: "blank (replicate (min 10 space) CHR '' '')"
    by (simp add: blank_def is_ws_def)
  have "reads_back (replicate (min 10 space) CHR '' '') v"
    using gap assms(1) by (rule well_formed_reads_back(1))
  moreover have "blank []" by (simp add: blank_simps)
  ultimately obtain strP
    where "SerializeJSONProperty (replicate (min 10 space) CHR '' '') [] v = Some strP"
      and rd: "\<And>n w rest. blank w \<Longrightarrow> length strP \<le> n \<Longrightarrow>
                 parse_value n (w @ strP @ rest) = Some (v, rest)"
    unfolding reads_back_def by blast
  with assms(2) have "strP = s"
    by (simp add: JSON_stringify_def)
  with rd [of "[]" "length s" "[]"] have "parse_value (length s) s = Some (v, [])"
    by (simp add: blank_simps)
  then show ?thesis
    by (simp add: JSON_parse_def skip_ws_def)
qed

section \<open>The JSON export reads back\<close>

lemma serialize_shown_attribute:
  "SerializeJSONProperty gap indent (js_of_attribute a)
     = SerializeJSONProperty gap indent (shown_attribute a)"
  by (cases "attr_description a")
     (simp_all add: js_of_attribute_def shown_attribute_def js_of_optional_def)

lemma array_partial_shown:
  "array_partial gap indent (map js_of_attribute attrs)
     = array_partial gap indent (map shown_attribute attrs)"
  by (induction attrs) (simp_all add: serialize_shown_attribute split: option.splits)

lemma serialize_shown_data:
  "SerializeJSONProperty gap indent (js_of_data d)
     = SerializeJSONProperty gap indent (shown_data d)"
  by (simp add: js_of_data_def shown_data_def array_partial_shown)

lemma well_formed_shown_attributes: "well_formed_list (map shown_attribute attrs)"
proof (induction attrs)
  case Nil
  show ?case by simp
next
  case (Cons a attrs)
  have "well_formed (shown_attribute a)"
    by (cases "attr_description a") (simp_all add: shown_attribute_def)
  with Cons show ?case by simp
qed

lemma well_formed_shown_data: "well_formed (shown_data d)"
  by (simp add: shown_data_def well_formed_shown_attributes)

lemma attribute_of_shown: "attribute_of_js (shown_attribute a) = Some a"
  by (cases "attr_description a")
     (simp_all add: attribute_of_js_def shown_attribute_def obj_get_def)

lemma those_attributes_of_shown:
  "those (map (attribute_of_js \<circ> shown_attribute) attrs) = Some attrs"
  by (induction attrs) (simp_all add: attribute_of_shown)

lemma data_of_shown: "data_of_js (shown_data d) = Some d"
  by (simp add: data_of_js_def shown_data_def obj_get_def those_attributes_of_shown)

lemma stringify_data_defined: "\<exists>s. JSON_stringify (js_of_data d) space = Some s"
  by (simp add: JSON_stringify_def js_of_data_def)

text \<open>
  Claim C4.  For every collected record, the JSON export is a text, and reading that
  text back gives the record: its name, category and description and its attributes
  with their names, types and descriptions.
\<close>

theorem json_export_round_trip:
  "\<exists>s. toJSON r = Some s \<and> fromJSON s = Some r"
proof -
  obtain s where s: "JSON_stringify (js_of_data r) 2 = Some s"
    using stringify_data_defined by blast
  then have "JSON_stringify (shown_data r) 2 = Some s"
    by (simp add: JSON_stringify_def serialize_shown_data)
  with well_formed_shown_data have "JSON_parse s = Some (shown_data r)"
    by (rule JSON_parse_stringify)
  then have "fromJSON s = Some r"
    by (simp add: fromJSON_def data_of_shown)
  moreover from s have "toJSON r = Some s"
    by (simp add: toJSON_def export_file_def)
  ultimately show ?thesis by blast
qed

end
